theory Spec2Isabelle
  imports Main "HOL-Library.Word"
begin

unbundle bit_operations_syntax

section \<open>Data model of \<open>sftp_server.go\<close>\<close>

text \<open>
  Go strings and byte slices are sequences of bytes: both are \<^typ>\<open>string\<close> here, and the
  conversion \<open>[]byte(data)\<close> is the identity. A Go \<open>error\<close> is an opaque value that the
  code only ever compares with \<open>nil\<close>; a returned \<open>error\<close> is an \<open>error option\<close>
  (\<open>None\<close> is \<open>nil\<close>), and a nil slice is the empty list.
\<close>

datatype error = Error string

record SFTPClient =
  Username :: string
  Password :: string
  IPAddress :: string
  Port :: string

text \<open>The struct \<open>fileInfo\<close> of the source (\<open>size\<close> and \<open>Sys\<close> are suffixed).\<close>

record fileInfo =
  name :: string
  size_ :: "64 word"
  mode :: "32 word"
  modTime :: int
  isDir :: bool
  Sys_ :: nat

text \<open>
  What the code reads through the interface \<open>os.FileInfo\<close>: the results of the six
  methods \<open>Name()\<close>, \<open>Size()\<close>, \<open>Mode()\<close>, \<open>ModTime()\<close>, \<open>IsDir()\<close>, \<open>Sys()\<close>. The time
  stamp and the raw system value are opaque to the code and only copied.
\<close>

record os_FileInfo =
  Name :: string
  Size :: "64 word"
  Mode :: "32 word"
  ModTime :: int
  IsDir :: bool
  Sys :: nat

subsection \<open>The external packages\<close>

text \<open>
  The flags of package \<open>os\<close> that the code passes to \<open>OpenFile\<close> (their values on Linux).
\<close>

definition O_WRONLY :: int where
  "O_WRONLY = 1"

definition O_APPEND :: int where
  "O_APPEND = 1024"

text \<open>
  The methods of \<open>*sftp.Client\<close> and \<open>*sftp.File\<close> that the code calls, as functions
  on the state \<open>'s\<close> of the remote filesystem; \<open>'h\<close> is the type of file handles. Each call
  returns its Go result and the remote state after it; a call that returns a value and
  an error is a sum (\<open>Inl\<close> the error). Nothing is assumed about what the remote does:
  any call may fail, and any call may change the state. The deferred \<open>Close\<close> calls
  release a handle or the session; they are not operations on the filesystem state and
  their results are dropped by the code, so they do not appear.
\<close>

record ('s, 'h) sftp_Client =
  Stat :: "'s \<Rightarrow> string \<Rightarrow> (error + os_FileInfo) \<times> 's"
  OpenFile :: "'s \<Rightarrow> string \<Rightarrow> int \<Rightarrow> (error + 'h) \<times> 's"
  Create :: "'s \<Rightarrow> string \<Rightarrow> (error + 'h) \<times> 's"
  Open :: "'s \<Rightarrow> string \<Rightarrow> (error + 'h) \<times> 's"
  Write :: "'s \<Rightarrow> 'h \<Rightarrow> string \<Rightarrow> (int \<times> error option) \<times> 's"
  ReadFrom :: "'s \<Rightarrow> 'h \<Rightarrow> (string \<times> error option) \<times> 's"
  ReadDir :: "'s \<Rightarrow> string \<Rightarrow> (error + os_FileInfo list) \<times> 's"
  Mkdir :: "'s \<Rightarrow> string \<Rightarrow> error option \<times> 's"

datatype ssh_AuthMethod = ssh_Password string

datatype ssh_HostKeyCallback = ssh_InsecureIgnoreHostKey

record ssh_ClientConfig =
  User :: string
  Auth :: "ssh_AuthMethod list"
  HostKeyCallback :: ssh_HostKeyCallback

text \<open>\<open>ssh.Dial\<close> and \<open>sftp.NewClient\<close>; \<open>'c\<close> is the type of SSH connections.\<close>

record ('s, 'h, 'c) transport =
  ssh_Dial :: "string \<Rightarrow> string \<Rightarrow> ssh_ClientConfig \<Rightarrow> error + 'c"
  sftp_NewClient :: "'c \<Rightarrow> error + ('s, 'h) sftp_Client"

section \<open>The operations\<close>

definition connect :: "('s, 'h, 'c) transport \<Rightarrow> SFTPClient \<Rightarrow> error + ('s, 'h) sftp_Client" where
  "connect t c =
     (let config = \<lparr>User = Username c, Auth = [ssh_Password (Password c)],
                    HostKeyCallback = ssh_InsecureIgnoreHostKey\<rparr>
      in case ssh_Dial t ''tcp'' (IPAddress c @ '':'' @ Port c) config of
           Inl err \<Rightarrow> Inl err
         | Inr conn \<Rightarrow>
             (case sftp_NewClient t conn of
                Inl err \<Rightarrow> Inl err
              | Inr client \<Rightarrow> Inr client))"

text \<open>\<open>_, err = f.Write([]byte(data)); if err != nil { return err }; return nil\<close>\<close>

definition write_data :: "('s, 'h) sftp_Client \<Rightarrow> 's \<Rightarrow> 'h \<Rightarrow> string \<Rightarrow> error option \<times> 's" where
  "write_data client s f data =
     (case Write client s f data of
        ((n, Some err), s') \<Rightarrow> (Some err, s')
      | ((n, None), s') \<Rightarrow> (None, s'))"

definition AppendToFile ::
  "('s, 'h, 'c) transport \<Rightarrow> SFTPClient \<Rightarrow> 's \<Rightarrow> string \<Rightarrow> string \<Rightarrow> error option \<times> 's" where
  "AppendToFile t c s filePath data =
     (case connect t c of
        Inl err \<Rightarrow> (Some err, s)
      | Inr client \<Rightarrow>
          (case Stat client s filePath of
             (Inr info, s1) \<Rightarrow>
               (case OpenFile client s1 filePath (O_APPEND OR O_WRONLY) of
                  (Inl err, s2) \<Rightarrow> (Some err, s2)
                | (Inr f, s2) \<Rightarrow> write_data client s2 f data)
           | (Inl err, s1) \<Rightarrow>
               (case Create client s1 filePath of
                  (Inl err, s2) \<Rightarrow> (Some err, s2)
                | (Inr f, s2) \<Rightarrow> write_data client s2 f data)))"

definition OverwriteFile ::
  "('s, 'h, 'c) transport \<Rightarrow> SFTPClient \<Rightarrow> 's \<Rightarrow> string \<Rightarrow> string \<Rightarrow> error option \<times> 's" where
  "OverwriteFile t c s filePath data =
     (case connect t c of
        Inl err \<Rightarrow> (Some err, s)
      | Inr client \<Rightarrow>
          (case Create client s filePath of
             (Inl err, s1) \<Rightarrow> (Some err, s1)
           | (Inr f, s1) \<Rightarrow> write_data client s1 f data))"

definition ReadFile ::
  "('s, 'h, 'c) transport \<Rightarrow> SFTPClient \<Rightarrow> 's \<Rightarrow> string \<Rightarrow> (string \<times> error option) \<times> 's" where
  "ReadFile t c s filePath =
     (case connect t c of
        Inl err \<Rightarrow> (([], Some err), s)
      | Inr client \<Rightarrow>
          (case Open client s filePath of
             (Inl err, s1) \<Rightarrow> (([], Some err), s1)
           | (Inr f, s1) \<Rightarrow>
               (case ReadFrom client s1 f of
                  ((buf, Some err), s2) \<Rightarrow> (([], Some err), s2)
                | ((buf, None), s2) \<Rightarrow> ((buf, None), s2))))"

definition ListOfFilesDir ::
  "('s, 'h, 'c) transport \<Rightarrow> SFTPClient \<Rightarrow> 's \<Rightarrow> string \<Rightarrow>
     (os_FileInfo list \<times> error option) \<times> 's" where
  "ListOfFilesDir t c s dirPath =
     (case connect t c of
        Inl err \<Rightarrow> (([], Some err), s)
      | Inr client \<Rightarrow>
          (case ReadDir client s dirPath of
             (Inl err, s1) \<Rightarrow> (([], Some err), s1)
           | (Inr files, s1) \<Rightarrow> ((files, None), s1)))"

subsection \<open>The recursive listing\<close>

text \<open>
  \<open>newFile\<close> of \<open>listAllFilesRecursive\<close>: the record built for a listed entry \<open>f\<close>.
\<close>

definition newFile :: "string \<Rightarrow> os_FileInfo \<Rightarrow> fileInfo" where
  "newFile prefix f =
     \<lparr>name = prefix @ ''/'' @ Name f, size_ = Size f, mode = Mode f,
      modTime = ModTime f, isDir = IsDir f, Sys_ = Sys f\<rparr>"

text \<open>
  \<open>listAllFilesRecursive\<close> appends to the slice \<open>*allFiles\<close> that its caller owns: the model
  takes the slice and returns it, with the remote state. Go's recursion is not bounded,
  and on a remote whose listings never end it does not return; the model takes the number
  of nested calls it may make as its first argument, and the first component of its
  result is \<open>None\<close> when the call has not returned within them, \<open>Some err\<close> with the
  returned \<open>error\<close> otherwise. \<open>range_files\<close> is the \<open>for _, f := range files\<close> loop.
\<close>

fun listAllFilesRecursive ::
    "nat \<Rightarrow> ('s, 'h) sftp_Client \<Rightarrow> string \<Rightarrow> string \<Rightarrow> 's \<Rightarrow> fileInfo list \<Rightarrow>
       error option option \<times> 's \<times> fileInfo list"
  and range_files ::
    "nat \<Rightarrow> ('s, 'h) sftp_Client \<Rightarrow> string \<Rightarrow> string \<Rightarrow> os_FileInfo list \<Rightarrow> 's \<Rightarrow> fileInfo list \<Rightarrow>
       error option option \<times> 's \<times> fileInfo list"
where
  "listAllFilesRecursive 0 client dirPath prefix s allFiles = (None, s, allFiles)"
| "listAllFilesRecursive (Suc n) client dirPath prefix s allFiles =
     (case ReadDir client s dirPath of
        (Inl err, s1) \<Rightarrow> (Some (Some err), s1, allFiles)
      | (Inr files, s1) \<Rightarrow> range_files n client dirPath prefix files s1 allFiles)"
| "range_files n client dirPath prefix [] s allFiles = (Some None, s, allFiles)"
| "range_files n client dirPath prefix (f # fs) s allFiles =
     (if IsDir f then
        (let newPrefix = prefix @ ''/'' @ Name f
         in case listAllFilesRecursive n client (dirPath @ ''/'' @ Name f) newPrefix s allFiles of
              (None, s1, allFiles1) \<Rightarrow> (None, s1, allFiles1)
            | (Some (Some err), s1, allFiles1) \<Rightarrow> (Some (Some err), s1, allFiles1)
            | (Some None, s1, allFiles1) \<Rightarrow> range_files n client dirPath prefix fs s1 allFiles1)
      else range_files n client dirPath prefix fs s (allFiles @ [newFile prefix f]))"

text \<open>
  \<open>ListAllFiles\<close> returns \<open>(nil, err)\<close> or \<open>(allFiles, nil)\<close>; the first component of the
  model's result is \<open>None\<close> when the walk has not returned within \<open>fuel\<close> nested calls.
\<close>

definition ListAllFiles ::
  "nat \<Rightarrow> ('s, 'h, 'c) transport \<Rightarrow> SFTPClient \<Rightarrow> 's \<Rightarrow> string \<Rightarrow>
     (fileInfo list \<times> error option) option \<times> 's" where
  "ListAllFiles fuel t c s dirPath =
     (case connect t c of
        Inl err \<Rightarrow> (Some ([], Some err), s)
      | Inr client \<Rightarrow>
          (case listAllFilesRecursive fuel client dirPath [] s [] of
             (None, s1, allFiles) \<Rightarrow> (None, s1)
           | (Some (Some err), s1, allFiles) \<Rightarrow> (Some ([], Some err), s1)
           | (Some None, s1, allFiles) \<Rightarrow> (Some (allFiles, None), s1)))"

subsection \<open>Creating directories\<close>

definition CreateDirectoryIfNotExist ::
  "('s, 'h, 'c) transport \<Rightarrow> SFTPClient \<Rightarrow> 's \<Rightarrow> string \<Rightarrow> error option \<times> 's" where
  "CreateDirectoryIfNotExist t c s dirPath =
     (case connect t c of
        Inl err \<Rightarrow> (Some err, s)
      | Inr client \<Rightarrow>
          (case Stat client s dirPath of
             (Inr info, s1) \<Rightarrow> (None, s1)
           | (Inl err, s1) \<Rightarrow>
               (case Mkdir client s1 dirPath of
                  (Some err, s2) \<Rightarrow> (Some err, s2)
                | (None, s2) \<Rightarrow> (None, s2))))"

text \<open>
  \<open>strings.Split(dirPath, "/")\<close>: the substrings between the slashes, one more than there
  are slashes, so that the empty string gives one empty substring.
\<close>

fun Split_slash :: "string \<Rightarrow> string list" where
  "Split_slash [] = [[]]"
| "Split_slash (ch # cs) =
     (if ch = CHR ''/'' then [] # Split_slash cs
      else (case Split_slash cs of
              [] \<Rightarrow> [[ch]]
            | w # ws \<Rightarrow> (ch # w) # ws))"

text \<open>The loop over \<open>pathComponents\<close>, with the variable \<open>currentPath\<close>.\<close>

fun range_pathComponents ::
  "('s, 'h) sftp_Client \<Rightarrow> 's \<Rightarrow> string \<Rightarrow> string list \<Rightarrow> error option \<times> 's" where
  "range_pathComponents client s currentPath [] = (None, s)"
| "range_pathComponents client s currentPath (component # rest) =
     (if component = [] then range_pathComponents client s currentPath rest
      else
        (let currentPath = currentPath @ ''/'' @ component
         in case Stat client s currentPath of
              (Inr info, s1) \<Rightarrow> range_pathComponents client s1 currentPath rest
            | (Inl err, s1) \<Rightarrow>
                (case Mkdir client s1 currentPath of
                   (Some err, s2) \<Rightarrow> (Some err, s2)
                 | (None, s2) \<Rightarrow> range_pathComponents client s2 currentPath rest)))"

definition CreateDirectoryRecursively ::
  "('s, 'h, 'c) transport \<Rightarrow> SFTPClient \<Rightarrow> 's \<Rightarrow> string \<Rightarrow> error option \<times> 's" where
  "CreateDirectoryRecursively t c s dirPath =
     (case connect t c of
        Inl err \<Rightarrow> (Some err, s)
      | Inr client \<Rightarrow> range_pathComponents client s [] (Split_slash dirPath))"

section \<open>Observing the calls made on the remote\<close>

text \<open>
  To state which calls an operation makes, and in which order, a client is wrapped so
  that every call is also written to a log kept beside the remote state: the call, and
  the error it returned (\<open>None\<close> when it succeeded).
\<close>

datatype 'h call =
    CallStat string
  | CallOpenFile string int
  | CallCreate string
  | CallOpen string
  | CallWrite 'h string
  | CallReadFrom 'h
  | CallReadDir string
  | CallMkdir string

fun err_of :: "error + 'a \<Rightarrow> error option" where
  "err_of (Inl err) = Some err"
| "err_of (Inr v) = None"

definition logged :: "('s, 'h) sftp_Client \<Rightarrow> ('s \<times> ('h call \<times> error option) list, 'h) sftp_Client" where
  "logged client =
     \<lparr>Stat = (\<lambda>(s, l) p. case Stat client s p of
                (r, s') \<Rightarrow> (r, (s', l @ [(CallStat p, err_of r)]))),
      OpenFile = (\<lambda>(s, l) p fl. case OpenFile client s p fl of
                (r, s') \<Rightarrow> (r, (s', l @ [(CallOpenFile p fl, err_of r)]))),
      Create = (\<lambda>(s, l) p. case Create client s p of
                (r, s') \<Rightarrow> (r, (s', l @ [(CallCreate p, err_of r)]))),
      Open = (\<lambda>(s, l) p. case Open client s p of
                (r, s') \<Rightarrow> (r, (s', l @ [(CallOpen p, err_of r)]))),
      Write = (\<lambda>(s, l) f d. case Write client s f d of
                (r, s') \<Rightarrow> (r, (s', l @ [(CallWrite f d, snd r)]))),
      ReadFrom = (\<lambda>(s, l) f. case ReadFrom client s f of
                (r, s') \<Rightarrow> (r, (s', l @ [(CallReadFrom f, snd r)]))),
      ReadDir = (\<lambda>(s, l) p. case ReadDir client s p of
                (r, s') \<Rightarrow> (r, (s', l @ [(CallReadDir p, err_of r)]))),
      Mkdir = (\<lambda>(s, l) p. case Mkdir client s p of
                (r, s') \<Rightarrow> (r, (s', l @ [(CallMkdir p, r)])))\<rparr>"

text \<open>The transport whose sessions are logged.\<close>

definition logged_transport ::
  "('s, 'h, 'c) transport \<Rightarrow> ('s \<times> ('h call \<times> error option) list, 'h, 'c) transport" where
  "logged_transport t =
     \<lparr>ssh_Dial = ssh_Dial t,
      sftp_NewClient = (\<lambda>conn. case sftp_NewClient t conn of
                           Inl err \<Rightarrow> Inl err
                         | Inr client \<Rightarrow> Inr (logged client))\<rparr>"

section \<open>A reference remote filesystem\<close>

text \<open>
  The claims on what a file contains after a write, or on what a probe reports after a
  directory was made, depend on what the remote does with the calls. This is the remote
  they are stated on: the contract of the specification's section 6 (stat gives metadata
  or not-found, create truncates, a handle opened for appending writes at the end, mkdir
  makes one level), with paths compared as byte strings and no permission checks. The
  root directory is the path \<open>''''\<close>, the parent of \<open>''/a''\<close>. \<open>order\<close> holds the paths in the
  order of their creation; listings follow it.
\<close>

datatype node = RegularFile string | Directory

record remote_fs =
  nodes :: "string \<Rightarrow> node option"
  order :: "string list"

record handle =
  h_path :: string
  h_flags :: int

definition O_RDONLY :: int where
  "O_RDONLY = 0"

definition O_RDWR :: int where
  "O_RDWR = 2"

definition O_CREATE :: int where
  "O_CREATE = 64"

definition O_TRUNC :: int where
  "O_TRUNC = 512"

definition has_flag :: "int \<Rightarrow> int \<Rightarrow> bool" where
  "has_flag fl b = (fl AND b \<noteq> 0)"

definition dirname :: "string \<Rightarrow> string" where
  "dirname p = rev (drop 1 (dropWhile (\<lambda>ch. ch \<noteq> CHR ''/'') (rev p)))"

definition basename :: "string \<Rightarrow> string" where
  "basename p = rev (takeWhile (\<lambda>ch. ch \<noteq> CHR ''/'') (rev p))"

definition ErrNotExist :: error where
  "ErrNotExist = Error ''file does not exist''"

definition ErrExist :: error where
  "ErrExist = Error ''file already exists''"

definition ErrFailure :: error where
  "ErrFailure = Error ''failure''"

definition info_of :: "string \<Rightarrow> node \<Rightarrow> os_FileInfo" where
  "info_of p n =
     (case n of
        RegularFile b \<Rightarrow>
          \<lparr>Name = basename p, Size = of_nat (length b), Mode = 420,
           ModTime = 0, IsDir = False, Sys = 0\<rparr>
      | Directory \<Rightarrow>
          \<lparr>Name = basename p, Size = 0, Mode = 2147484141,
           ModTime = 0, IsDir = True, Sys = 0\<rparr>)"

definition fs_Stat :: "remote_fs \<Rightarrow> string \<Rightarrow> (error + os_FileInfo) \<times> remote_fs" where
  "fs_Stat s p =
     (case nodes s p of
        None \<Rightarrow> (Inl ErrNotExist, s)
      | Some n \<Rightarrow> (Inr (info_of p n), s))"

definition fs_OpenFile :: "remote_fs \<Rightarrow> string \<Rightarrow> int \<Rightarrow> (error + handle) \<times> remote_fs" where
  "fs_OpenFile s p fl =
     (case nodes s p of
        Some Directory \<Rightarrow> (Inl ErrFailure, s)
      | Some (RegularFile b) \<Rightarrow>
          (Inr \<lparr>h_path = p, h_flags = fl\<rparr>,
           if has_flag fl O_TRUNC then s\<lparr>nodes := (nodes s)(p \<mapsto> RegularFile [])\<rparr> else s)
      | None \<Rightarrow>
          (if has_flag fl O_CREATE \<and> nodes s (dirname p) = Some Directory
           then (Inr \<lparr>h_path = p, h_flags = fl\<rparr>,
                 s\<lparr>nodes := (nodes s)(p \<mapsto> RegularFile []), order := order s @ [p]\<rparr>)
           else (Inl ErrNotExist, s)))"

definition fs_Create :: "remote_fs \<Rightarrow> string \<Rightarrow> (error + handle) \<times> remote_fs" where
  "fs_Create s p = fs_OpenFile s p (O_RDWR OR O_CREATE OR O_TRUNC)"

definition fs_Open :: "remote_fs \<Rightarrow> string \<Rightarrow> (error + handle) \<times> remote_fs" where
  "fs_Open s p = fs_OpenFile s p O_RDONLY"

text \<open>
  A handle starts at offset 0, and the code writes to it once: the data replaces the
  first bytes of the file, or follows its last byte when the handle was opened for
  appending.
\<close>

definition fs_Write :: "remote_fs \<Rightarrow> handle \<Rightarrow> string \<Rightarrow> (int \<times> error option) \<times> remote_fs" where
  "fs_Write s f d =
     (case nodes s (h_path f) of
        Some (RegularFile b) \<Rightarrow>
          (if has_flag (h_flags f) O_WRONLY \<or> has_flag (h_flags f) O_RDWR then
             ((int (length d), None),
              s\<lparr>nodes := (nodes s)(h_path f \<mapsto>
                   RegularFile (if has_flag (h_flags f) O_APPEND then b @ d
                                else d @ drop (length d) b))\<rparr>)
           else ((0, Some ErrFailure), s))
      | _ \<Rightarrow> ((0, Some ErrFailure), s))"

definition fs_ReadFrom :: "remote_fs \<Rightarrow> handle \<Rightarrow> (string \<times> error option) \<times> remote_fs" where
  "fs_ReadFrom s f =
     (case nodes s (h_path f) of
        Some (RegularFile b) \<Rightarrow>
          (if has_flag (h_flags f) O_WRONLY then (([], Some ErrFailure), s)
           else ((b, None), s))
      | _ \<Rightarrow> (([], Some ErrFailure), s))"

definition fs_ReadDir :: "remote_fs \<Rightarrow> string \<Rightarrow> (error + os_FileInfo list) \<times> remote_fs" where
  "fs_ReadDir s p =
     (case nodes s p of
        Some Directory \<Rightarrow>
          (Inr (concat (map (\<lambda>q. case nodes s q of
                                    None \<Rightarrow> []
                                  | Some n \<Rightarrow> if dirname q = p \<and> q \<noteq> p then [info_of q n] else [])
                            (order s))), s)
      | Some (RegularFile b) \<Rightarrow> (Inl ErrFailure, s)
      | None \<Rightarrow> (Inl ErrNotExist, s))"

definition fs_Mkdir :: "remote_fs \<Rightarrow> string \<Rightarrow> error option \<times> remote_fs" where
  "fs_Mkdir s p =
     (case nodes s p of
        Some n \<Rightarrow> (Some ErrExist, s)
      | None \<Rightarrow>
          (if nodes s (dirname p) = Some Directory
           then (None, s\<lparr>nodes := (nodes s)(p \<mapsto> Directory), order := order s @ [p]\<rparr>)
           else (Some ErrNotExist, s)))"

definition fs_client :: "(remote_fs, handle) sftp_Client" where
  "fs_client =
     \<lparr>Stat = fs_Stat, OpenFile = fs_OpenFile, Create = fs_Create, Open = fs_Open,
      Write = fs_Write, ReadFrom = fs_ReadFrom, ReadDir = fs_ReadDir, Mkdir = fs_Mkdir\<rparr>"

text \<open>The remote that holds only its root directory.\<close>

definition fs_root :: remote_fs where
  "fs_root = \<lparr>nodes = [[] \<mapsto> Directory], order = []\<rparr>"

text \<open>A transport on which every dial and every session succeeds, for a given client.\<close>

definition transport_of :: "('s, 'h) sftp_Client \<Rightarrow> ('s, 'h, unit) transport" where
  "transport_of client =
     \<lparr>ssh_Dial = (\<lambda>network addr config. Inr ()), sftp_NewClient = (\<lambda>conn. Inr client)\<rparr>"

definition some_credentials :: SFTPClient where
  "some_credentials =
     \<lparr>Username = ''user'', Password = ''secret'', IPAddress = ''10.0.0.1'', Port = ''22''\<rparr>"

text \<open>
  A remote with one file and one empty directory, and a client on which every probe
  is refused, whatever the path holds.
\<close>

definition fs_example :: remote_fs where
  "fs_example =
     \<lparr>nodes = [[] \<mapsto> Directory, ''/f'' \<mapsto> RegularFile ''X'', ''/empty'' \<mapsto> Directory],
      order = [''/f'', ''/empty'']\<rparr>"

definition denied_client :: "(remote_fs, handle) sftp_Client" where
  "denied_client = fs_client\<lparr>Stat := (\<lambda>s p. (Inl (Error ''permission denied''), s))\<rparr>"

section \<open>What the specification says of a run\<close>

text \<open>
  The specification's words for \<open>ensureDirectoryPath\<close>, to compare the code with. The
  segments of a path are its non-empty parts between slashes, and the accumulated
  prefixes of the segments \<open>a\<close>, \<open>b\<close>, \<open>c\<close> are \<open>/a\<close>, \<open>/a/b\<close>, \<open>/a/b/c\<close>.
\<close>

definition segments :: "string \<Rightarrow> string list" where
  "segments p = filter (\<lambda>w. w \<noteq> []) (Split_slash p)"

definition accumulated_prefixes :: "string list \<Rightarrow> string list" where
  "accumulated_prefixes ws =
     map (\<lambda>k. concat (map (\<lambda>w. ''/'' @ w) (take k ws))) [1..<Suc (length ws)]"

text \<open>
  \<open>ensure_run qs l r\<close>: the calls \<open>l\<close> and the result \<open>r\<close> are a run of the state machine of
  the specification's section 4.3 over the prefixes \<open>qs\<close>, from left to right. Each
  prefix is probed; one whose probe succeeds is skipped; one whose probe fails is
  created, and the next prefix is only reached when that creation has succeeded; a
  creation that fails is the last call of the run, and its error is the result.
\<close>

inductive ensure_run ::
  "string list \<Rightarrow> ('h call \<times> error option) list \<Rightarrow> error option \<Rightarrow> bool" where
  finished: "ensure_run [] [] None"
| present: "ensure_run qs l r \<Longrightarrow> ensure_run (q # qs) ((CallStat q, None) # l) r"
| created: "ensure_run qs l r \<Longrightarrow>
     ensure_run (q # qs) ((CallStat q, Some e) # (CallMkdir q, None) # l) r"
| failed: "ensure_run (q # qs) [(CallStat q, Some e), (CallMkdir q, Some e')] (Some e')"

code_pred ensure_run .

text \<open>
  A remote that holds the directory \<open>/a\<close>, and a client that refuses to make \<open>/a/b/c\<close>.
\<close>

definition fs_with_a :: remote_fs where
  "fs_with_a = \<lparr>nodes = [[] \<mapsto> Directory, ''/a'' \<mapsto> Directory], order = [''/a'']\<rparr>"

definition refusing_client :: "(remote_fs, handle) sftp_Client" where
  "refusing_client =
     fs_client\<lparr>Mkdir := (\<lambda>s p. if p = ''/a/b/c'' then (Some (Error ''permission denied''), s)
                                 else fs_Mkdir s p)\<rparr>"

text \<open>
  The specification's words for the records of \<open>listAll\<close>. The path of a record is
  \<open>/\<close> joined with the entry's path relative to the root of the walk: \<open>rel_path\<close> of the
  names on the way down, each preceded by a slash. \<open>dir_chain client s d ns\<close>: starting
  from the directory \<open>d\<close>, each name of \<open>ns\<close> is listed as a directory in the directory
  reached so far. \<open>leaf_entry client s root ds f\<close>: below \<open>root\<close>, the directories \<open>ds\<close> lead
  to a directory whose listing holds the entry \<open>f\<close>, and \<open>f\<close> is not a directory.
\<close>

definition rel_path :: "string list \<Rightarrow> string" where
  "rel_path ns = concat (map (\<lambda>n. ''/'' @ n) ns)"

fun dir_chain :: "('s, 'h) sftp_Client \<Rightarrow> 's \<Rightarrow> string \<Rightarrow> string list \<Rightarrow> bool" where
  "dir_chain client s d [] = True"
| "dir_chain client s d (n # ns) =
     ((case fst (ReadDir client s d) of
         Inl err \<Rightarrow> False
       | Inr files \<Rightarrow> list_ex (\<lambda>f. IsDir f \<and> Name f = n) files)
      \<and> dir_chain client s (d @ ''/'' @ n) ns)"

definition leaf_entry ::
  "('s, 'h) sftp_Client \<Rightarrow> 's \<Rightarrow> string \<Rightarrow> string list \<Rightarrow> os_FileInfo \<Rightarrow> bool" where
  "leaf_entry client s root ds f =
     (dir_chain client s root ds
      \<and> (case fst (ReadDir client s (root @ rel_path ds)) of
            Inl err \<Rightarrow> False
          | Inr files \<Rightarrow> f \<in> set files)
      \<and> \<not> IsDir f)"

definition listed_leaf :: "('s, 'h) sftp_Client \<Rightarrow> 's \<Rightarrow> string \<Rightarrow> fileInfo \<Rightarrow> bool" where
  "listed_leaf client s root r =
     (\<exists>ds f. leaf_entry client s root ds f \<and> r = newFile (rel_path ds) f)"

text \<open>
  \<open>walk_log res l\<close>: the calls \<open>l\<close> of a walk that ended with \<open>res\<close>. When the walk returned
  an error, its last call is the listing that failed with that error, and no call
  before it failed; otherwise no call failed.
\<close>

definition walk_log :: "error option option \<Rightarrow> ('h call \<times> error option) list \<Rightarrow> bool" where
  "walk_log res l =
     (case res of
        Some (Some e) \<Rightarrow>
          l \<noteq> [] \<and> (\<exists>p. last l = (CallReadDir p, Some e))
          \<and> list_all (\<lambda>ev. snd ev = None) (butlast l)
      | _ \<Rightarrow> list_all (\<lambda>ev. snd ev = None) l)"

text \<open>
  A remote with the files \<open>/root/f1\<close> and \<open>/root/sub/f2\<close>, and a client that cannot list
  \<open>/root/sub\<close>.
\<close>

definition fs_tree :: remote_fs where
  "fs_tree =
     \<lparr>nodes = [[] \<mapsto> Directory, ''/root'' \<mapsto> Directory, ''/root/f1'' \<mapsto> RegularFile ''1'',
               ''/root/sub'' \<mapsto> Directory, ''/root/sub/f2'' \<mapsto> RegularFile ''22''],
      order = [''/root'', ''/root/f1'', ''/root/sub'', ''/root/sub/f2'']\<rparr>"

definition unreadable_client :: "(remote_fs, handle) sftp_Client" where
  "unreadable_client =
     fs_client\<lparr>ReadDir := (\<lambda>s p. if p = ''/root/sub'' then (Inl (Error ''permission denied''), s)
                                   else fs_ReadDir s p)\<rparr>"

text \<open>
  A remote that resolves paths as a server does: leading, trailing and repeated slashes
  count for nothing, so that \<open>/\<close> is its root directory and \<open>//root\<close> is \<open>/root\<close>. And a
  client that serves the reference remote below the mount point \<open>/mnt\<close>.
\<close>

definition resolve :: "string \<Rightarrow> string" where
  "resolve p = rel_path (segments p)"

definition canonical_client :: "(remote_fs, handle) sftp_Client" where
  "canonical_client =
     \<lparr>Stat = (\<lambda>s p. fs_Stat s (resolve p)),
      OpenFile = (\<lambda>s p fl. fs_OpenFile s (resolve p) fl),
      Create = (\<lambda>s p. fs_Create s (resolve p)),
      Open = (\<lambda>s p. fs_Open s (resolve p)),
      Write = fs_Write, ReadFrom = fs_ReadFrom,
      ReadDir = (\<lambda>s p. fs_ReadDir s (resolve p)),
      Mkdir = (\<lambda>s p. fs_Mkdir s (resolve p))\<rparr>"

definition mounted_client :: "(remote_fs, handle) sftp_Client" where
  "mounted_client = fs_client\<lparr>ReadDir := (\<lambda>s p. fs_ReadDir s (drop 4 p))\<rparr>"

section \<open>Properties\<close>

text \<open>
  Every operation first opens its own session. The properties below are about what an
  operation does on the remote it is connected to: \<open>connect t c = Inr client\<close> names
  that remote.
\<close>

lemma connect_transport_of: "connect (transport_of client) c = Inr client"
  by (simp add: connect_def transport_of_def)

lemma connect_logged_transport:
  "connect (logged_transport t) c =
     (case connect t c of Inl err \<Rightarrow> Inl err | Inr client \<Rightarrow> Inr (logged client))"
  by (simp add: connect_def logged_transport_def split: sum.splits)

lemma has_flag_simps:
  "has_flag (O_APPEND OR O_WRONLY) O_APPEND"
  "has_flag (O_APPEND OR O_WRONLY) O_WRONLY"
  "\<not> has_flag (O_APPEND OR O_WRONLY) O_TRUNC"
  "\<not> has_flag (O_APPEND OR O_WRONLY) O_CREATE"
  "has_flag (O_RDWR OR O_CREATE OR O_TRUNC) O_TRUNC"
  "has_flag (O_RDWR OR O_CREATE OR O_TRUNC) O_CREATE"
  "has_flag (O_RDWR OR O_CREATE OR O_TRUNC) O_RDWR"
  "\<not> has_flag (O_RDWR OR O_CREATE OR O_TRUNC) O_APPEND"
  "\<not> has_flag (O_RDWR OR O_CREATE OR O_TRUNC) O_WRONLY"
  "\<not> has_flag O_RDONLY b"
  by (simp_all add: has_flag_def O_RDWR_def O_CREATE_def O_TRUNC_def O_APPEND_def
        O_WRONLY_def O_RDONLY_def)

lemmas fs_defs = fs_client_def write_data_def fs_Create_def fs_Open_def fs_OpenFile_def
  fs_Write_def fs_ReadFrom_def fs_Stat_def fs_Mkdir_def has_flag_simps

subsection \<open>Files\<close>

text \<open>
  Claim C8. In \<open>AppendToFile\<close>, a probe that fails takes the create path, whatever its
  error is: once \<open>Stat\<close> has returned an error, the call is \<open>Create\<close> followed by \<open>Write\<close>
  of the data, which is what \<open>OverwriteFile\<close> does from the state the probe left.
  \<open>OpenFile\<close> is not called. The error \<open>err\<close> of the probe is arbitrary and does not
  occur in the result.
\<close>

theorem AppendToFile_failed_probe_creates:
  assumes "connect t c = Inr client" and "Stat client s p = (Inl err, s1)"
  shows "AppendToFile t c s p d =
           (case Create client s1 p of
              (Inl e, s2) \<Rightarrow> (Some e, s2)
            | (Inr f, s2) \<Rightarrow> (case Write client s2 f d of ((n, e), s3) \<Rightarrow> (e, s3)))
         \<and> AppendToFile t c s p d = OverwriteFile t c s1 p d"
  using assms
  by (auto simp: AppendToFile_def OverwriteFile_def write_data_def
      split: prod.splits sum.splits option.splits)

text \<open>
  On the example remote the file \<open>/f\<close> holds \<open>X\<close>. When the probe is refused, appending
  \<open>new\<close> truncates the file: it holds \<open>new\<close> afterwards, not \<open>Xnew\<close>.
\<close>

theorem AppendToFile_failed_probe_creates_witness:
  "connect (transport_of denied_client) some_credentials = Inr denied_client
   \<and> Stat denied_client fs_example ''/f'' = (Inl (Error ''permission denied''), fs_example)
   \<and> AppendToFile (transport_of denied_client) some_credentials fs_example ''/f'' ''new''
       = OverwriteFile (transport_of denied_client) some_credentials fs_example ''/f'' ''new''
   \<and> nodes (snd (AppendToFile (transport_of denied_client) some_credentials fs_example
                 ''/f'' ''new'')) ''/f'' = Some (RegularFile ''new'')"
proof -
  have h1: "connect (transport_of denied_client) some_credentials = Inr denied_client"
    by (rule connect_transport_of)
  have h2: "Stat denied_client fs_example ''/f'' = (Inl (Error ''permission denied''), fs_example)"
    by (simp add: denied_client_def)
  have "Create denied_client fs_example ''/f''
          = (Inr \<lparr>h_path = ''/f'', h_flags = O_RDWR OR O_CREATE OR O_TRUNC\<rparr>,
             fs_example\<lparr>nodes := (nodes fs_example)(''/f'' \<mapsto> RegularFile [])\<rparr>)"
    by (simp add: denied_client_def fs_defs fs_example_def)
  then have n: "nodes (snd (AppendToFile (transport_of denied_client) some_credentials fs_example
                 ''/f'' ''new'')) ''/f'' = Some (RegularFile ''new'')"
    using AppendToFile_failed_probe_creates [OF h1 h2, of "''new''"]
    by (simp add: denied_client_def fs_defs)
  have e: "AppendToFile (transport_of denied_client) some_credentials fs_example ''/f'' ''new''
       = OverwriteFile (transport_of denied_client) some_credentials fs_example ''/f'' ''new''"
    using AppendToFile_failed_probe_creates [OF h1 h2, of "''new''"] by (rule conjunct2)
  from h1 h2 e n show ?thesis
    by (intro conjI)
qed

text \<open>
  Claim C3, on the reference remote. (1) Appending to a path that holds nothing is
  overwriting it: the same result and the same remote state. (2) Appending \<open>y\<close> to a
  file that holds \<open>x\<close> succeeds and leaves the file holding \<open>x @ y\<close>, and nothing else
  changed. (3) Two overwrites in a row give the result and the remote state of the
  second alone, so nothing of the first payload is left; and when the second reports
  success, the file holds exactly the second payload.
\<close>

theorem append_overwrite_laws:
  assumes "connect t c = Inr fs_client"
  shows "(nodes s p = None \<longrightarrow> AppendToFile t c s p d = OverwriteFile t c s p d)
       \<and> (nodes s p = Some (RegularFile x) \<longrightarrow>
            AppendToFile t c s p y = (None, s\<lparr>nodes := (nodes s)(p \<mapsto> RegularFile (x @ y))\<rparr>))
       \<and> OverwriteFile t c (snd (OverwriteFile t c s p d1)) p d2 = OverwriteFile t c s p d2
       \<and> (fst (OverwriteFile t c s p d2) = None \<longrightarrow>
            nodes (snd (OverwriteFile t c (snd (OverwriteFile t c s p d1)) p d2)) p
              = Some (RegularFile d2))"
proof (intro conjI impI)
  assume "nodes s p = None"
  then show "AppendToFile t c s p d = OverwriteFile t c s p d"
    using assms by (simp add: AppendToFile_def OverwriteFile_def fs_defs)
next
  assume "nodes s p = Some (RegularFile x)"
  then show "AppendToFile t c s p y = (None, s\<lparr>nodes := (nodes s)(p \<mapsto> RegularFile (x @ y))\<rparr>)"
    using assms by (simp add: AppendToFile_def fs_defs)
next
  show "OverwriteFile t c (snd (OverwriteFile t c s p d1)) p d2 = OverwriteFile t c s p d2"
    using assms
    by (auto simp: OverwriteFile_def fs_defs split: option.splits node.splits)
next
  assume "fst (OverwriteFile t c s p d2) = None"
  then show "nodes (snd (OverwriteFile t c (snd (OverwriteFile t c s p d1)) p d2)) p
               = Some (RegularFile d2)"
    using assms
    by (auto simp: OverwriteFile_def fs_defs split: option.splits node.splits if_splits)
qed

theorem append_overwrite_laws_witness:
  "connect (transport_of fs_client) some_credentials = Inr fs_client
   \<and> nodes fs_example ''/g'' = None
   \<and> AppendToFile (transport_of fs_client) some_credentials fs_example ''/g'' ''d''
       = OverwriteFile (transport_of fs_client) some_credentials fs_example ''/g'' ''d''
   \<and> nodes fs_example ''/f'' = Some (RegularFile ''X'')
   \<and> AppendToFile (transport_of fs_client) some_credentials fs_example ''/f'' ''Y''
       = (None, fs_example\<lparr>nodes := (nodes fs_example)(''/f'' \<mapsto> RegularFile ''XY'')\<rparr>)
   \<and> fst (OverwriteFile (transport_of fs_client) some_credentials fs_example ''/f'' ''2'') = None
   \<and> nodes (snd (OverwriteFile (transport_of fs_client) some_credentials
        (snd (OverwriteFile (transport_of fs_client) some_credentials fs_example ''/f'' ''1''))
        ''/f'' ''2'')) ''/f'' = Some (RegularFile ''2'')"
proof -
  have h: "connect (transport_of fs_client) some_credentials = Inr fs_client"
    by (rule connect_transport_of)
  have g: "nodes fs_example ''/g'' = None"
    by (simp add: fs_example_def)
  have f: "nodes fs_example ''/f'' = Some (RegularFile ''X'')"
    by (simp add: fs_example_def)
  have ok: "fst (OverwriteFile (transport_of fs_client) some_credentials fs_example ''/f'' ''2'') = None"
    by (simp add: OverwriteFile_def connect_transport_of fs_defs f)
  have a: "AppendToFile (transport_of fs_client) some_credentials fs_example ''/g'' ''d''
       = OverwriteFile (transport_of fs_client) some_credentials fs_example ''/g'' ''d''"
    using g append_overwrite_laws [OF h, of fs_example "''/g''" "''d''"] by blast
  have "AppendToFile (transport_of fs_client) some_credentials fs_example ''/f'' ''Y''
       = (None, fs_example\<lparr>nodes := (nodes fs_example)(''/f'' \<mapsto> RegularFile (''X'' @ ''Y''))\<rparr>)"
    using f append_overwrite_laws [OF h, of fs_example "''/f''" _ "''X''" "''Y''"] by blast
  then have b: "AppendToFile (transport_of fs_client) some_credentials fs_example ''/f'' ''Y''
       = (None, fs_example\<lparr>nodes := (nodes fs_example)(''/f'' \<mapsto> RegularFile ''XY'')\<rparr>)"
    by simp
  have d: "nodes (snd (OverwriteFile (transport_of fs_client) some_credentials
        (snd (OverwriteFile (transport_of fs_client) some_credentials fs_example ''/f'' ''1''))
        ''/f'' ''2'')) ''/f'' = Some (RegularFile ''2'')"
    using ok append_overwrite_laws [OF h, of fs_example "''/f''" _ _ _ "''1''" "''2''"] by blast
  from h g a f b ok d show ?thesis
    by (intro conjI)
qed

text \<open>
  Claim C4, on the reference remote. When \<open>OverwriteFile\<close> of \<open>d\<close> to \<open>p\<close> has returned
  no error, and a \<open>ReadFile\<close> of \<open>p\<close> on the state it left returns no error, the bytes read
  are \<open>d\<close>.
\<close>

theorem read_after_overwrite:
  assumes "connect t c = Inr fs_client"
      and "OverwriteFile t c s p d = (None, s1)"
      and "ReadFile t c s1 p = ((b, None), s2)"
  shows "b = d"
  using assms
  by (auto simp: OverwriteFile_def ReadFile_def fs_defs
      split: prod.splits sum.splits option.splits node.splits if_splits)

theorem read_after_overwrite_witness:
  "connect (transport_of fs_client) some_credentials = Inr fs_client
   \<and> OverwriteFile (transport_of fs_client) some_credentials fs_example ''/f'' ''data''
       = (None, fs_example\<lparr>nodes := (nodes fs_example)(''/f'' \<mapsto> RegularFile ''data'')\<rparr>)
   \<and> ReadFile (transport_of fs_client) some_credentials
        (fs_example\<lparr>nodes := (nodes fs_example)(''/f'' \<mapsto> RegularFile ''data'')\<rparr>) ''/f''
       = ((''data'', None),
          fs_example\<lparr>nodes := (nodes fs_example)(''/f'' \<mapsto> RegularFile ''data'')\<rparr>)"
proof -
  have h: "connect (transport_of fs_client) some_credentials = Inr fs_client"
    by (rule connect_transport_of)
  have w: "OverwriteFile (transport_of fs_client) some_credentials fs_example ''/f'' ''data''
       = (None, fs_example\<lparr>nodes := (nodes fs_example)(''/f'' \<mapsto> RegularFile ''data'')\<rparr>)"
    by (simp add: OverwriteFile_def connect_transport_of fs_defs fs_example_def)
  obtain b where r: "ReadFile (transport_of fs_client) some_credentials
        (fs_example\<lparr>nodes := (nodes fs_example)(''/f'' \<mapsto> RegularFile ''data'')\<rparr>) ''/f''
       = ((b, None),
          fs_example\<lparr>nodes := (nodes fs_example)(''/f'' \<mapsto> RegularFile ''data'')\<rparr>)"
    by (simp add: ReadFile_def connect_transport_of fs_defs)
  from read_after_overwrite [OF h w r] h w r show ?thesis
    by simp
qed

text \<open>
  Claim C10. \<open>ReadFile\<close> calls nothing on the remote but \<open>Open\<close> and \<open>ReadFrom\<close>: no
  \<open>Create\<close>, no \<open>OpenFile\<close>, no \<open>Write\<close>, no \<open>Mkdir\<close>, on every remote and whether it returns
  an error or not. So on a remote where opening a file for reading and reading it
  change nothing, as on the reference remote, the state after \<open>ReadFile\<close> is the state
  before it.
\<close>

theorem ReadFile_changes_nothing:
  "fst ` set (snd (snd (ReadFile (logged_transport t) c (s, []) p)))
      \<subseteq> range CallOpen \<union> range CallReadFrom
   \<and> ((\<forall>client. connect t c = Inr client \<longrightarrow>
          (\<forall>s p. snd (Open client s p) = s) \<and> (\<forall>s f. snd (ReadFrom client s f) = s))
        \<longrightarrow> snd (ReadFile t c s p) = s)"
proof (intro conjI impI)
  show "fst ` set (snd (snd (ReadFile (logged_transport t) c (s, []) p)))
          \<subseteq> range CallOpen \<union> range CallReadFrom"
    by (auto simp: ReadFile_def connect_logged_transport logged_def
        split: sum.splits prod.splits option.splits)
next
  assume ro: "\<forall>client. connect t c = Inr client \<longrightarrow>
          (\<forall>s p. snd (Open client s p) = s) \<and> (\<forall>s f. snd (ReadFrom client s f) = s)"
  show "snd (ReadFile t c s p) = s"
  proof (cases "connect t c")
    case (Inl err)
    then show ?thesis by (simp add: ReadFile_def)
  next
    case (Inr client)
    with ro have o: "snd (Open client s p) = s" and r: "\<And>f. snd (ReadFrom client s f) = s"
      by auto
    show ?thesis
    proof (cases "Open client s p")
      case (Pair res s1)
      with o have s1: "s1 = s" by simp
      show ?thesis
      proof (cases res)
        case (Inl err)
        with Inr Pair s1 show ?thesis by (simp add: ReadFile_def)
      next
        case (Inr f)
        with \<open>connect t c = Inr client\<close> Pair s1 r [of f] show ?thesis
          by (auto simp: ReadFile_def split: prod.splits option.splits)
      qed
    qed
  qed
qed

theorem ReadFile_changes_nothing_witness:
  "(\<forall>s p. snd (Open fs_client s p) = s)
   \<and> (\<forall>s f. snd (ReadFrom fs_client s f) = s)
   \<and> ReadFile (transport_of fs_client) some_credentials fs_example ''/f''
       = ((''X'', None), fs_example)
   \<and> snd (ReadFile (transport_of fs_client) some_credentials fs_example ''/nothing'') = fs_example"
proof -
  have o: "\<forall>s p. snd (Open fs_client s p) = s"
    by (auto simp: fs_defs split: option.splits node.splits)
  have r: "\<forall>s f. snd (ReadFrom fs_client s f) = s"
    by (auto simp: fs_defs split: option.splits node.splits)
  from o r have ro: "\<forall>client. connect (transport_of fs_client) some_credentials = Inr client \<longrightarrow>
          (\<forall>s p. snd (Open client s p) = s) \<and> (\<forall>s f. snd (ReadFrom client s f) = s)"
    by (simp add: connect_transport_of)
  have v: "fst (ReadFile (transport_of fs_client) some_credentials fs_example ''/f'') = (''X'', None)"
    by (simp add: ReadFile_def connect_transport_of fs_defs fs_example_def)
  have "snd (ReadFile (transport_of fs_client) some_credentials fs_example ''/f'') = fs_example"
    using ro ReadFile_changes_nothing [of "transport_of fs_client" some_credentials fs_example "''/f''"]
    by blast
  with v have f: "ReadFile (transport_of fs_client) some_credentials fs_example ''/f''
       = ((''X'', None), fs_example)"
    by (metis prod.collapse)
  have n: "snd (ReadFile (transport_of fs_client) some_credentials fs_example ''/nothing'') = fs_example"
    using ro ReadFile_changes_nothing [of "transport_of fs_client" some_credentials fs_example "''/nothing''"]
    by blast
  from o r f n show ?thesis
    by (intro conjI)
qed

subsection \<open>Single directories\<close>

text \<open>
  Claim C6, as stated, fails where the directory cannot be made: on the remote that
  holds only its root, \<open>/a/b\<close> is not present, \<open>CreateDirectoryIfNotExist\<close> of it returns
  the error of \<open>Mkdir\<close> (the parent \<open>/a\<close> is missing) and changes nothing, and a probe of
  \<open>/a/b\<close> afterwards still reports it absent.
\<close>

theorem ensureDirectory_probe_counterexample:
  "nodes fs_root ''/a/b'' = None
   \<and> CreateDirectoryIfNotExist (transport_of fs_client) some_credentials fs_root ''/a/b''
       = (Some ErrNotExist, fs_root)
   \<and> fst (Stat fs_client fs_root ''/a/b'') = Inl ErrNotExist"
  by (simp add: CreateDirectoryIfNotExist_def connect_transport_of fs_defs fs_root_def
      dirname_def)

text \<open>
  Claim C6, amended, on the reference remote. For every path \<open>p\<close> that is not already
  a directory and whose parent is a directory, \<open>CreateDirectoryIfNotExist\<close> returns no
  error, a probe of \<open>p\<close> on the state it left succeeds, \<open>p\<close> was made a directory when it
  was absent, and a second call right after returns no error and changes nothing. On
  every path a second call leaves the state the first one left. The call fails exactly
  when \<open>p\<close> is absent and its parent is not a directory.
\<close>

theorem ensureDirectory_present_and_idempotent:
  assumes "connect t c = Inr fs_client"
  shows "(nodes s p \<noteq> Some Directory \<and> nodes s (dirname p) = Some Directory \<longrightarrow>
            fst (CreateDirectoryIfNotExist t c s p) = None
          \<and> (\<exists>info. fst (Stat fs_client (snd (CreateDirectoryIfNotExist t c s p)) p) = Inr info)
          \<and> (nodes s p = None \<longrightarrow>
                snd (CreateDirectoryIfNotExist t c s p)
                  = s\<lparr>nodes := (nodes s)(p \<mapsto> Directory), order := order s @ [p]\<rparr>)
          \<and> CreateDirectoryIfNotExist t c (snd (CreateDirectoryIfNotExist t c s p)) p
              = (None, snd (CreateDirectoryIfNotExist t c s p)))
       \<and> snd (CreateDirectoryIfNotExist t c (snd (CreateDirectoryIfNotExist t c s p)) p)
           = snd (CreateDirectoryIfNotExist t c s p)
       \<and> (fst (CreateDirectoryIfNotExist t c s p) \<noteq> None
            \<longleftrightarrow> nodes s p = None \<and> nodes s (dirname p) \<noteq> Some Directory)"
proof (intro conjI impI)
  assume h: "nodes s p \<noteq> Some Directory \<and> nodes s (dirname p) = Some Directory"
  show "fst (CreateDirectoryIfNotExist t c s p) = None"
    using assms h by (auto simp: CreateDirectoryIfNotExist_def fs_defs split: option.splits)
  show "\<exists>info. fst (Stat fs_client (snd (CreateDirectoryIfNotExist t c s p)) p) = Inr info"
    using assms h by (auto simp: CreateDirectoryIfNotExist_def fs_defs split: option.splits)
  show "CreateDirectoryIfNotExist t c (snd (CreateDirectoryIfNotExist t c s p)) p
              = (None, snd (CreateDirectoryIfNotExist t c s p))"
    using assms h by (auto simp: CreateDirectoryIfNotExist_def fs_defs split: option.splits)
  assume "nodes s p = None"
  with assms h show "snd (CreateDirectoryIfNotExist t c s p)
                  = s\<lparr>nodes := (nodes s)(p \<mapsto> Directory), order := order s @ [p]\<rparr>"
    by (simp add: CreateDirectoryIfNotExist_def fs_defs)
next
  show "snd (CreateDirectoryIfNotExist t c (snd (CreateDirectoryIfNotExist t c s p)) p)
           = snd (CreateDirectoryIfNotExist t c s p)"
    using assms
    by (auto simp: CreateDirectoryIfNotExist_def fs_defs split: option.splits if_splits)
next
  show "fst (CreateDirectoryIfNotExist t c s p) \<noteq> None
            \<longleftrightarrow> nodes s p = None \<and> nodes s (dirname p) \<noteq> Some Directory"
    using assms
    by (auto simp: CreateDirectoryIfNotExist_def fs_defs split: option.splits if_splits)
qed

theorem ensureDirectory_present_and_idempotent_witness:
  "connect (transport_of fs_client) some_credentials = Inr fs_client
   \<and> nodes fs_root ''/a'' \<noteq> Some Directory
   \<and> nodes fs_root (dirname ''/a'') = Some Directory
   \<and> nodes fs_root ''/a'' = None
   \<and> CreateDirectoryIfNotExist (transport_of fs_client) some_credentials fs_root ''/a''
       = (None, fs_root\<lparr>nodes := (nodes fs_root)(''/a'' \<mapsto> Directory),
                        order := order fs_root @ [''/a'']\<rparr>)
   \<and> (\<exists>info. fst (Stat fs_client
         (snd (CreateDirectoryIfNotExist (transport_of fs_client) some_credentials fs_root ''/a''))
         ''/a'') = Inr info)
   \<and> CreateDirectoryIfNotExist (transport_of fs_client) some_credentials
        (snd (CreateDirectoryIfNotExist (transport_of fs_client) some_credentials fs_root ''/a''))
        ''/a''
       = (None, snd (CreateDirectoryIfNotExist (transport_of fs_client) some_credentials
                       fs_root ''/a''))"
proof -
  have h: "connect (transport_of fs_client) some_credentials = Inr fs_client"
    by (rule connect_transport_of)
  have a: "nodes fs_root ''/a'' = None"
    by (simp add: fs_root_def)
  then have n: "nodes fs_root ''/a'' \<noteq> Some Directory"
    by simp
  have d: "nodes fs_root (dirname ''/a'') = Some Directory"
    by (simp add: fs_root_def dirname_def)
  note th = ensureDirectory_present_and_idempotent [OF h, of fs_root "''/a''"]
  from th n d have ok: "fst (CreateDirectoryIfNotExist (transport_of fs_client) some_credentials
                            fs_root ''/a'') = None"
    by blast
  from th n d a have st: "snd (CreateDirectoryIfNotExist (transport_of fs_client) some_credentials
                            fs_root ''/a'')
       = fs_root\<lparr>nodes := (nodes fs_root)(''/a'' \<mapsto> Directory), order := order fs_root @ [''/a'']\<rparr>"
    by blast
  from ok st have r: "CreateDirectoryIfNotExist (transport_of fs_client) some_credentials fs_root ''/a''
       = (None, fs_root\<lparr>nodes := (nodes fs_root)(''/a'' \<mapsto> Directory),
                        order := order fs_root @ [''/a'']\<rparr>)"
    by (metis prod.collapse)
  from th n d have p: "\<exists>info. fst (Stat fs_client
         (snd (CreateDirectoryIfNotExist (transport_of fs_client) some_credentials fs_root ''/a''))
         ''/a'') = Inr info"
    by blast
  from th n d have i: "CreateDirectoryIfNotExist (transport_of fs_client) some_credentials
        (snd (CreateDirectoryIfNotExist (transport_of fs_client) some_credentials fs_root ''/a''))
        ''/a''
       = (None, snd (CreateDirectoryIfNotExist (transport_of fs_client) some_credentials
                       fs_root ''/a''))"
    by blast
  from h n d a r p i show ?thesis
    by (intro conjI)
qed

subsection \<open>Listings\<close>

text \<open>
  Claim C7. When the listing of the directory succeeds and is empty, \<open>ListAllFiles\<close>
  returns the empty sequence and no error, as soon as it may make one call.
\<close>

theorem ListAllFiles_empty_directory:
  assumes "connect t c = Inr client" and "ReadDir client s p = (Inr [], s1)"
  shows "ListAllFiles (Suc n) t c s p = (Some ([], None), s1)"
  using assms by (simp add: ListAllFiles_def)

theorem ListAllFiles_empty_directory_witness:
  "connect (transport_of fs_client) some_credentials = Inr fs_client
   \<and> ReadDir fs_client fs_example ''/empty'' = (Inr [], fs_example)
   \<and> ListAllFiles (Suc 0) (transport_of fs_client) some_credentials fs_example ''/empty''
       = (Some ([], None), fs_example)"
proof -
  have h: "connect (transport_of fs_client) some_credentials = Inr fs_client"
    by (rule connect_transport_of)
  have e: "ReadDir fs_client fs_example ''/empty'' = (Inr [], fs_example)"
    by (simp add: fs_client_def fs_ReadDir_def fs_example_def dirname_def)
  from ListAllFiles_empty_directory [OF h e, of 0] h e show ?thesis
    by simp
qed

subsection \<open>Directory paths\<close>

lemma accumulated_prefixes_Nil: "accumulated_prefixes [] = []"
  by (simp add: accumulated_prefixes_def)

lemma accumulated_prefixes_Cons:
  "accumulated_prefixes (w # ws) =
     (''/'' @ w) # map (\<lambda>q. ''/'' @ w @ q) (accumulated_prefixes ws)"
proof -
  have "[1..<Suc (Suc (length ws))] = 1 # map Suc [1..<Suc (length ws)]"
    by (simp add: upt_conv_Cons map_Suc_upt del: upt_Suc)
  then show ?thesis
    by (simp add: accumulated_prefixes_def comp_def del: upt_Suc)
qed

lemma logged_simps:
  "Stat (logged client) (s, l) p =
     (case Stat client s p of (r, s') \<Rightarrow> (r, (s', l @ [(CallStat p, err_of r)])))"
  "OpenFile (logged client) (s, l) p fl =
     (case OpenFile client s p fl of (r, s') \<Rightarrow> (r, (s', l @ [(CallOpenFile p fl, err_of r)])))"
  "Create (logged client) (s, l) p =
     (case Create client s p of (r, s') \<Rightarrow> (r, (s', l @ [(CallCreate p, err_of r)])))"
  "Open (logged client) (s, l) p =
     (case Open client s p of (r, s') \<Rightarrow> (r, (s', l @ [(CallOpen p, err_of r)])))"
  "Write (logged client) (s, l) f d =
     (case Write client s f d of (w, s') \<Rightarrow> (w, (s', l @ [(CallWrite f d, snd w)])))"
  "ReadFrom (logged client) (s, l) f =
     (case ReadFrom client s f of (w, s') \<Rightarrow> (w, (s', l @ [(CallReadFrom f, snd w)])))"
  "ReadDir (logged client) (s, l) p =
     (case ReadDir client s p of (r, s') \<Rightarrow> (r, (s', l @ [(CallReadDir p, err_of r)])))"
  "Mkdir (logged client) (s, l) p =
     (case Mkdir client s p of (m, s') \<Rightarrow> (m, (s', l @ [(CallMkdir p, m)])))"
  by (simp_all add: logged_def)

lemma range_pathComponents_logged:
  "\<exists>l2. range_pathComponents (logged client) (s, l) cur comps
          = (fst (range_pathComponents client s cur comps),
             (snd (range_pathComponents client s cur comps), l @ l2))
        \<and> ensure_run (map (\<lambda>q. cur @ q) (accumulated_prefixes (filter (\<lambda>w. w \<noteq> []) comps)))
             l2 (fst (range_pathComponents client s cur comps))"
proof (induction comps arbitrary: s l cur)
  case Nil
  show ?case by (simp add: accumulated_prefixes_Nil finished)
next
  case (Cons w ws)
  show ?case
  proof (cases "w = []")
    case True
    with Cons [of s l cur] show ?thesis by simp
  next
    case False
    let ?q = "cur @ ''/'' @ w"
    have pre: "map (\<lambda>q. cur @ q) (accumulated_prefixes (filter (\<lambda>w. w \<noteq> []) (w # ws)))
          = ?q # map (\<lambda>q. ?q @ q) (accumulated_prefixes (filter (\<lambda>w. w \<noteq> []) ws))"
      using False by (simp add: accumulated_prefixes_Cons comp_def)
    obtain r s1 where st: "Stat client s ?q = (r, s1)" by (cases "Stat client s ?q")
    show ?thesis
    proof (cases r)
      case (Inr info)
      from Cons [of s1 "l @ [(CallStat ?q, None)]" ?q] obtain l2 where
        "range_pathComponents (logged client) (s1, l @ [(CallStat ?q, None)]) ?q ws
          = (fst (range_pathComponents client s1 ?q ws),
             (snd (range_pathComponents client s1 ?q ws), (l @ [(CallStat ?q, None)]) @ l2))"
        and "ensure_run (map (\<lambda>q. ?q @ q) (accumulated_prefixes (filter (\<lambda>w. w \<noteq> []) ws)))
             l2 (fst (range_pathComponents client s1 ?q ws))"
        by blast
      then show ?thesis
        using False st Inr pre
        by (intro exI [of _ "(CallStat ?q, None) # l2"]) (simp add: logged_simps Let_def present)
    next
      case (Inl err)
      obtain m s2 where mk: "Mkdir client s1 ?q = (m, s2)" by (cases "Mkdir client s1 ?q")
      show ?thesis
      proof (cases m)
        case (Some e')
        then show ?thesis
          using False st Inl mk pre
          by (intro exI [of _ "[(CallStat ?q, Some err), (CallMkdir ?q, Some e')]"])
             (simp add: logged_simps Let_def failed)
      next
        case None
        from Cons [of s2 "l @ [(CallStat ?q, Some err), (CallMkdir ?q, None)]" ?q] obtain l2 where
          "range_pathComponents (logged client) (s2, l @ [(CallStat ?q, Some err), (CallMkdir ?q, None)]) ?q ws
            = (fst (range_pathComponents client s2 ?q ws),
               (snd (range_pathComponents client s2 ?q ws),
                (l @ [(CallStat ?q, Some err), (CallMkdir ?q, None)]) @ l2))"
          and "ensure_run (map (\<lambda>q. ?q @ q) (accumulated_prefixes (filter (\<lambda>w. w \<noteq> []) ws)))
               l2 (fst (range_pathComponents client s2 ?q ws))"
          by blast
        then show ?thesis
          using False st Inl mk None pre
          by (intro exI [of _ "(CallStat ?q, Some err) # (CallMkdir ?q, None) # l2"])
             (simp add: logged_simps Let_def created)
      qed
    qed
  qed
qed


text \<open>
  Claim C2. For every path \<open>p\<close> and every remote, the calls that
  \<open>CreateDirectoryRecursively\<close> makes are a run of the specification's state machine over
  the accumulated prefixes of the segments of \<open>p\<close>: the prefixes are probed from left
  to right, \<open>Mkdir\<close> is called on exactly the prefixes whose probe failed, a prefix is
  only reached after the one before it was found or made, and a \<open>Mkdir\<close> that fails is
  the last call, its error the result. Nothing is called after it: what was made
  stays. The logged run returns what the plain run returns and leaves the same remote.
\<close>

theorem CreateDirectoryRecursively_run:
  assumes "connect t c = Inr client"
  shows "\<exists>l. CreateDirectoryRecursively (logged_transport t) c (s, []) p
               = (fst (CreateDirectoryRecursively t c s p),
                  (snd (CreateDirectoryRecursively t c s p), l))
             \<and> ensure_run (accumulated_prefixes (segments p)) l
                  (fst (CreateDirectoryRecursively t c s p))"
  using assms range_pathComponents_logged [of client s "[]" "[]" "Split_slash p"]
  by (simp add: CreateDirectoryRecursively_def connect_logged_transport segments_def)

text \<open>
  On a remote that holds \<open>/a\<close>, with a client that refuses to make \<open>/a/b/c\<close>: \<open>/a\<close> is
  found, \<open>/a/b\<close> is made, the creation of \<open>/a/b/c\<close> fails with the error returned, and
  \<open>/a/b\<close> is a directory afterwards.
\<close>

theorem CreateDirectoryRecursively_run_witness:
  "connect (transport_of refusing_client) some_credentials = Inr refusing_client
   \<and> CreateDirectoryRecursively (logged_transport (transport_of refusing_client)) some_credentials
        (fs_with_a, []) ''/a/b/c''
       = (Some (Error ''permission denied''),
          (fs_with_a\<lparr>nodes := (nodes fs_with_a)(''/a/b'' \<mapsto> Directory),
                     order := [''/a'', ''/a/b'']\<rparr>,
           [(CallStat ''/a'', None),
            (CallStat ''/a/b'', Some ErrNotExist), (CallMkdir ''/a/b'', None),
            (CallStat ''/a/b/c'', Some ErrNotExist),
            (CallMkdir ''/a/b/c'', Some (Error ''permission denied''))]))
   \<and> ensure_run [''/a'', ''/a/b'', ''/a/b/c'']
        [(CallStat ''/a'' :: handle call, None),
         (CallStat ''/a/b'', Some ErrNotExist), (CallMkdir ''/a/b'', None),
         (CallStat ''/a/b/c'', Some ErrNotExist),
         (CallMkdir ''/a/b/c'', Some (Error ''permission denied''))]
        (Some (Error ''permission denied''))
   \<and> nodes (snd (CreateDirectoryRecursively (transport_of refusing_client) some_credentials
                 fs_with_a ''/a/b/c'')) ''/a/b'' = Some Directory"
proof -
  have h: "connect (transport_of refusing_client) some_credentials = Inr refusing_client"
    by (rule connect_transport_of)
  have sp: "Split_slash ''/a/b/c'' = [[], ''a'', ''b'', ''c'']"
    by simp
  have pre: "accumulated_prefixes (segments ''/a/b/c'') = [''/a'', ''/a/b'', ''/a/b/c'']"
    by (simp add: segments_def accumulated_prefixes_Cons accumulated_prefixes_Nil)
  have run: "CreateDirectoryRecursively (transport_of refusing_client) some_credentials
               fs_with_a ''/a/b/c''
       = (Some (Error ''permission denied''),
          fs_with_a\<lparr>nodes := (nodes fs_with_a)(''/a/b'' \<mapsto> Directory),
                     order := [''/a'', ''/a/b'']\<rparr>)"
    by (simp add: CreateDirectoryRecursively_def connect_transport_of sp refusing_client_def
        fs_client_def fs_Stat_def fs_Mkdir_def fs_with_a_def dirname_def Let_def)
  have lrun: "CreateDirectoryRecursively (logged_transport (transport_of refusing_client))
                some_credentials (fs_with_a, []) ''/a/b/c''
       = (Some (Error ''permission denied''),
          (fs_with_a\<lparr>nodes := (nodes fs_with_a)(''/a/b'' \<mapsto> Directory),
                     order := [''/a'', ''/a/b'']\<rparr>,
           [(CallStat ''/a'', None),
            (CallStat ''/a/b'', Some ErrNotExist), (CallMkdir ''/a/b'', None),
            (CallStat ''/a/b/c'', Some ErrNotExist),
            (CallMkdir ''/a/b/c'', Some (Error ''permission denied''))]))"
    by (simp add: CreateDirectoryRecursively_def connect_logged_transport connect_transport_of
        sp logged_simps refusing_client_def
        fs_client_def fs_Stat_def fs_Mkdir_def fs_with_a_def dirname_def Let_def)
  from CreateDirectoryRecursively_run [OF h, of fs_with_a "''/a/b/c''"]
  have e: "ensure_run [''/a'', ''/a/b'', ''/a/b/c'']
        [(CallStat ''/a'' :: handle call, None),
         (CallStat ''/a/b'', Some ErrNotExist), (CallMkdir ''/a/b'', None),
         (CallStat ''/a/b/c'', Some ErrNotExist),
         (CallMkdir ''/a/b/c'', Some (Error ''permission denied''))]
        (Some (Error ''permission denied''))"
    unfolding lrun pre run by simp
  have n: "nodes (snd (CreateDirectoryRecursively (transport_of refusing_client) some_credentials
                 fs_with_a ''/a/b/c'')) ''/a/b'' = Some Directory"
    unfolding run by simp
  from h lrun e n show ?thesis
    by (intro conjI)
qed

lemma Split_slash_not_Nil: "Split_slash p \<noteq> []"
  by (induction p) (auto split: list.splits)

lemma Split_slash_append:
  "Split_slash (p @ CHR ''/'' # q) = Split_slash p @ Split_slash q"
  by (induction p) (auto simp: Split_slash_not_Nil split: list.splits)

lemma segments_append: "segments (p @ CHR ''/'' # q) = segments p @ segments q"
  by (simp add: segments_def Split_slash_append)

lemma segments_Nil: "segments [] = []"
  by (simp add: segments_def)

lemma segments_slashes: "set p \<subseteq> {CHR ''/''} \<Longrightarrow> segments p = []"
  by (induction p) (auto simp: segments_def)

lemma range_pathComponents_filter:
  "range_pathComponents client s cur comps
     = range_pathComponents client s cur (filter (\<lambda>w. w \<noteq> []) comps)"
  by (induction comps arbitrary: s cur)
     (auto simp: Let_def split: prod.splits sum.splits option.splits)

lemma CreateDirectoryRecursively_segments:
  "CreateDirectoryRecursively t c s p =
     (case connect t c of
        Inl err \<Rightarrow> (Some err, s)
      | Inr client \<Rightarrow> range_pathComponents client s [] (segments p))"
proof (cases "connect t c")
  case (Inl err)
  then show ?thesis by (simp add: CreateDirectoryRecursively_def)
next
  case (Inr client)
  then show ?thesis
    using range_pathComponents_filter [of client s "[]" "Split_slash p"]
    by (simp add: CreateDirectoryRecursively_def segments_def)
qed

text \<open>
  Claim C9. What \<open>CreateDirectoryRecursively\<close> does depends on the non-empty components
  of its path only: a leading slash, a trailing slash and a doubled slash anywhere change
  neither the result nor the remote state, on every transport, so also on a logged one,
  where the state holds the calls made; and two paths with the same segments are
  treated alike. On a path of slashes only (the empty path is one) a connected call
  makes no call at all, returns no error and leaves the remote as it was.
\<close>

theorem CreateDirectoryRecursively_empty_components:
  "CreateDirectoryRecursively t c s (''/'' @ p) = CreateDirectoryRecursively t c s p
   \<and> CreateDirectoryRecursively t c s (p @ ''/'') = CreateDirectoryRecursively t c s p
   \<and> CreateDirectoryRecursively t c s (p @ ''//'' @ q) = CreateDirectoryRecursively t c s (p @ ''/'' @ q)
   \<and> (segments p = segments q \<longrightarrow>
        CreateDirectoryRecursively t c s p = CreateDirectoryRecursively t c s q)
   \<and> (connect t c = Inr client \<and> set p \<subseteq> {CHR ''/''} \<longrightarrow>
        CreateDirectoryRecursively (logged_transport t) c (s, []) p = (None, (s, [])))"
proof (intro conjI impI)
  have "segments (''/'' @ p) = segments p"
    using segments_append [of "[]" p] by (simp add: segments_Nil)
  then show "CreateDirectoryRecursively t c s (''/'' @ p) = CreateDirectoryRecursively t c s p"
    by (simp only: CreateDirectoryRecursively_segments)
next
  have "segments (p @ ''/'') = segments p"
    using segments_append [of p "[]"] by (simp add: segments_Nil)
  then show "CreateDirectoryRecursively t c s (p @ ''/'') = CreateDirectoryRecursively t c s p"
    by (simp only: CreateDirectoryRecursively_segments)
next
  have "segments (p @ ''//'' @ q) = segments (p @ ''/'' @ q)"
    using segments_append [of p "CHR ''/'' # q"] segments_append [of "[]" q] segments_append [of p q]
    by (simp add: segments_Nil)
  then show "CreateDirectoryRecursively t c s (p @ ''//'' @ q)
               = CreateDirectoryRecursively t c s (p @ ''/'' @ q)"
    by (simp only: CreateDirectoryRecursively_segments)
next
  assume "segments p = segments q"
  then show "CreateDirectoryRecursively t c s p = CreateDirectoryRecursively t c s q"
    by (simp only: CreateDirectoryRecursively_segments)
next
  assume "connect t c = Inr client \<and> set p \<subseteq> {CHR ''/''}"
  then show "CreateDirectoryRecursively (logged_transport t) c (s, []) p = (None, (s, []))"
    by (simp add: CreateDirectoryRecursively_segments connect_logged_transport segments_slashes)
qed

theorem CreateDirectoryRecursively_empty_components_witness:
  "segments ''//a///b/'' = segments ''/a/b''
   \<and> CreateDirectoryRecursively (transport_of fs_client) some_credentials fs_root ''//a///b/''
       = CreateDirectoryRecursively (transport_of fs_client) some_credentials fs_root ''/a/b''
   \<and> connect (transport_of fs_client) some_credentials = Inr fs_client
   \<and> set ''///'' \<subseteq> {CHR ''/''}
   \<and> CreateDirectoryRecursively (logged_transport (transport_of fs_client)) some_credentials
        (fs_root, []) ''///'' = (None, (fs_root, []))"
proof -
  have s: "segments ''//a///b/'' = segments ''/a/b''"
    by (simp add: segments_def)
  have h: "connect (transport_of fs_client) some_credentials = Inr fs_client"
    by (rule connect_transport_of)
  have a: "set ''///'' \<subseteq> {CHR ''/''}"
    by simp
  note th = CreateDirectoryRecursively_empty_components
  have e: "CreateDirectoryRecursively (transport_of fs_client) some_credentials fs_root ''//a///b/''
       = CreateDirectoryRecursively (transport_of fs_client) some_credentials fs_root ''/a/b''"
    using s th [where t = "transport_of fs_client" and c = some_credentials and s = fs_root
          and p = "''//a///b/''" and q = "''/a/b''"]
    by blast
  have n: "CreateDirectoryRecursively (logged_transport (transport_of fs_client)) some_credentials
        (fs_root, []) ''///'' = (None, (fs_root, []))"
    using h a th [where t = "transport_of fs_client" and c = some_credentials and s = fs_root
          and p = "''///''" and client = fs_client]
    by blast
  from s e h a n show ?thesis
    by (intro conjI)
qed

subsection \<open>Recursive listings\<close>

text \<open>
  The bound on the depth only cuts a walk short: a walk that has returned within a
  bound returns the same result, remote state and slice within every larger one.
\<close>

lemma range_files_more_fuel:
  assumes rec: "\<And>dirPath prefix s acc.
      fst (listAllFilesRecursive n client dirPath prefix s acc) \<noteq> None \<Longrightarrow>
      listAllFilesRecursive (Suc n) client dirPath prefix s acc
        = listAllFilesRecursive n client dirPath prefix s acc"
  shows "fst (range_files n client dirPath prefix files s acc) \<noteq> None \<Longrightarrow>
         range_files (Suc n) client dirPath prefix files s acc
           = range_files n client dirPath prefix files s acc"
proof (induction files arbitrary: s acc)
  case Nil
  show ?case by simp
next
  case (Cons f fs)
  show ?case
  proof (cases "IsDir f")
    case False
    with Cons show ?thesis by simp
  next
    case True
    let ?d = "dirPath @ ''/'' @ Name f" and ?p = "prefix @ ''/'' @ Name f"
    obtain res1 s1 out1 where sub1:
      "listAllFilesRecursive n client ?d ?p s acc = (res1, s1, out1)"
      by (metis prod.exhaust)
    with Cons.prems True have ne: "res1 \<noteq> None"
      by (auto simp: Let_def split: option.splits)
    with rec [of ?d ?p s acc] sub1
    have up: "listAllFilesRecursive (Suc n) client ?d ?p s acc = (res1, s1, out1)"
      by simp
    show ?thesis
    proof (cases "res1 = Some None")
      case False
      with ne True sub1 up show ?thesis
        by (auto simp: Let_def simp del: listAllFilesRecursive.simps split: option.splits)
    next
      case ok: True
      with Cons.prems True sub1
      have "fst (range_files n client dirPath prefix fs s1 out1) \<noteq> None"
        by (simp add: Let_def)
      from Cons.IH [OF this] True sub1 up ok show ?thesis
        by (simp add: Let_def del: listAllFilesRecursive.simps)
    qed
  qed
qed

lemma listAllFilesRecursive_Suc_fuel:
  "fst (listAllFilesRecursive n client dirPath prefix s acc) \<noteq> None \<Longrightarrow>
   listAllFilesRecursive (Suc n) client dirPath prefix s acc
     = listAllFilesRecursive n client dirPath prefix s acc"
proof (induction n arbitrary: dirPath prefix s acc)
  case 0
  then show ?case by simp
next
  case (Suc n)
  obtain r s1 where rd: "ReadDir client s dirPath = (r, s1)"
    by (metis prod.exhaust)
  show ?case
  proof (cases r)
    case (Inl err)
    with rd show ?thesis by simp
  next
    case (Inr files)
    with Suc.prems rd have "fst (range_files n client dirPath prefix files s1 acc) \<noteq> None"
      by simp
    from range_files_more_fuel [of n client, OF Suc.IH this] rd Inr show ?thesis
      by simp
  qed
qed

lemma listAllFilesRecursive_more_fuel:
  "fst (listAllFilesRecursive n client dirPath prefix s acc) \<noteq> None \<Longrightarrow>
   listAllFilesRecursive (n + k) client dirPath prefix s acc
     = listAllFilesRecursive n client dirPath prefix s acc"
proof (induction k)
  case 0
  show ?case by simp
next
  case (Suc k)
  then have "fst (listAllFilesRecursive (n + k) client dirPath prefix s acc) \<noteq> None"
    by simp
  from listAllFilesRecursive_Suc_fuel [OF this] Suc show ?case
    by simp
qed

lemma ListAllFiles_more_fuel:
  "fst (ListAllFiles n t c s p) \<noteq> None \<Longrightarrow> ListAllFiles (n + k) t c s p = ListAllFiles n t c s p"
proof (cases "connect t c")
  case (Inl err)
  then show ?thesis by (simp add: ListAllFiles_def)
next
  case (Inr client)
  assume ret: "fst (ListAllFiles n t c s p) \<noteq> None"
  obtain res0 s0 out0 where run: "listAllFilesRecursive n client p [] s [] = (res0, s0, out0)"
    by (metis prod.exhaust)
  with Inr ret have "res0 \<noteq> None"
    by (auto simp: ListAllFiles_def split: option.splits)
  with run listAllFilesRecursive_more_fuel [of n client p "[]" s "[]" k]
  have "listAllFilesRecursive (n + k) client p [] s [] = (res0, s0, out0)"
    by simp
  with Inr run show ?thesis
    by (simp add: ListAllFiles_def)
qed

lemma rel_path_simps:
  "rel_path [] = []"
  "rel_path (n # ns) = ''/'' @ n @ rel_path ns"
  "rel_path (ns @ ms) = rel_path ns @ rel_path ms"
  by (simp_all add: rel_path_def)

lemma dir_chain_snoc:
  "dir_chain client s d (ds @ [n]) =
     (dir_chain client s d ds
      \<and> (case fst (ReadDir client s (d @ rel_path ds)) of
            Inl err \<Rightarrow> False
          | Inr files \<Rightarrow> list_ex (\<lambda>f. IsDir f \<and> Name f = n) files))"
  by (induction ds arbitrary: d) (auto simp: rel_path_simps)

lemma range_files_leaves:
  assumes ro: "\<forall>s p. snd (ReadDir client s p) = s"
      and rec: "\<And>dirPath ds s acc res s' out.
         dir_chain client s root ds \<Longrightarrow> dirPath = root @ rel_path ds \<Longrightarrow>
         listAllFilesRecursive n client dirPath (rel_path ds) s acc = (res, s', out) \<Longrightarrow>
         s' = s \<and> (\<exists>new. out = acc @ new \<and> (\<forall>r\<in>set new. listed_leaf client s root r))"
      and ch: "dir_chain client s root ds"
      and ls: "fst (ReadDir client s (root @ rel_path ds)) = Inr all"
      and sub: "set files \<subseteq> set all"
      and run: "range_files n client (root @ rel_path ds) (rel_path ds) files s acc = (res, s', out)"
  shows "s' = s \<and> (\<exists>new. out = acc @ new \<and> (\<forall>r\<in>set new. listed_leaf client s root r))"
  using sub run
proof (induction files arbitrary: acc)
  case Nil
  then show ?case by simp
next
  case (Cons f fs)
  show ?case
  proof (cases "IsDir f")
    case False
    from Cons.prems have "f \<in> set all" by simp
    with ch ls False have "leaf_entry client s root ds f"
      by (simp add: leaf_entry_def)
    then have leaf: "listed_leaf client s root (newFile (rel_path ds) f)"
      unfolding listed_leaf_def by blast
    from Cons.prems False
    have "range_files n client (root @ rel_path ds) (rel_path ds) fs s
            (acc @ [newFile (rel_path ds) f]) = (res, s', out)"
      by simp
    with Cons.IH [of "acc @ [newFile (rel_path ds) f]"] Cons.prems(1)
    obtain new where "s' = s" "out = (acc @ [newFile (rel_path ds) f]) @ new"
      "\<forall>r\<in>set new. listed_leaf client s root r"
      by auto
    with leaf show ?thesis
      by (intro conjI exI [of _ "newFile (rel_path ds) f # new"]) auto
  next
    case True
    from Cons.prems have "f \<in> set all" by simp
    with ch ls True have ch': "dir_chain client s root (ds @ [Name f])"
      by (auto simp: dir_chain_snoc list_ex_iff)
    obtain res1 s1 out1 where sub1:
      "listAllFilesRecursive n client ((root @ rel_path ds) @ ''/'' @ Name f)
         (rel_path ds @ ''/'' @ Name f) s acc = (res1, s1, out1)"
      by (metis prod.exhaust)
    then have "listAllFilesRecursive n client (root @ rel_path (ds @ [Name f]))
         (rel_path (ds @ [Name f])) s acc = (res1, s1, out1)"
      by (simp add: rel_path_simps)
    from rec [OF ch' refl this]
    obtain new1 where s1: "s1 = s" and o1: "out1 = acc @ new1"
      and l1: "\<forall>r\<in>set new1. listed_leaf client s root r"
      by auto
    show ?thesis
    proof (cases "res1 = Some None")
      case False
      with Cons.prems True sub1 have "res = res1" "s' = s1" "out = out1"
        by (auto simp: Let_def split: option.splits)
      with s1 o1 l1 show ?thesis by auto
    next
      case ok: True
      with Cons.prems True sub1
      have "range_files n client (root @ rel_path ds) (rel_path ds) fs s1 out1 = (res, s', out)"
        by (simp add: Let_def)
      with Cons.IH [of out1] Cons.prems(1) s1
      obtain new where "s' = s" "out = out1 @ new" "\<forall>r\<in>set new. listed_leaf client s root r"
        by auto
      with o1 l1 show ?thesis
        by (intro conjI exI [of _ "new1 @ new"]) auto
    qed
  qed
qed

lemma listAllFilesRecursive_leaves:
  assumes ro: "\<forall>s p. snd (ReadDir client s p) = s"
  shows "dir_chain client s root ds \<Longrightarrow> dirPath = root @ rel_path ds \<Longrightarrow>
         listAllFilesRecursive n client dirPath (rel_path ds) s acc = (res, s', out) \<Longrightarrow>
         s' = s \<and> (\<exists>new. out = acc @ new \<and> (\<forall>r\<in>set new. listed_leaf client s root r))"
proof (induction n arbitrary: dirPath ds s acc res s' out)
  case 0
  then show ?case by simp
next
  case (Suc n)
  obtain r s1 where rd: "ReadDir client s (root @ rel_path ds) = (r, s1)"
    by (metis prod.exhaust)
  with ro have s1: "s1 = s" by (metis snd_conv)
  show ?case
  proof (cases r)
    case (Inl err)
    with Suc.prems rd s1 show ?thesis by simp
  next
    case (Inr files)
    with Suc.prems rd s1
    have run: "range_files n client (root @ rel_path ds) (rel_path ds) files s acc = (res, s', out)"
      by simp
    from rd Inr have ls: "fst (ReadDir client s (root @ rel_path ds)) = Inr files" by simp
    show ?thesis
      by (rule range_files_leaves [OF ro Suc.IH Suc.prems(1) ls subset_refl run])
  qed
qed

lemma range_files_same_records:
  assumes ro: "\<forall>s p. snd (ReadDir client s p) = s"
      and ro': "\<forall>s p. snd (ReadDir client' s p) = s"
      and rec: "\<And>ds acc. \<exists>res out.
          listAllFilesRecursive n client (root @ rel_path ds) (rel_path ds) s acc = (res, s, out)
        \<and> listAllFilesRecursive n client' (root' @ rel_path ds) (rel_path ds) s' acc = (res, s', out)"
  shows "\<exists>res out.
          range_files n client (root @ rel_path ds) (rel_path ds) files s acc = (res, s, out)
        \<and> range_files n client' (root' @ rel_path ds) (rel_path ds) files s' acc = (res, s', out)"
proof (induction files arbitrary: acc)
  case Nil
  show ?case by simp
next
  case (Cons f fs)
  show ?case
  proof (cases "IsDir f")
    case False
    with Cons [of "acc @ [newFile (rel_path ds) f]"] show ?thesis by simp
  next
    case True
    from rec [of "ds @ [Name f]" acc] obtain res1 out1 where
      a: "listAllFilesRecursive n client ((root @ rel_path ds) @ ''/'' @ Name f)
            (rel_path ds @ ''/'' @ Name f) s acc = (res1, s, out1)"
      and b: "listAllFilesRecursive n client' ((root' @ rel_path ds) @ ''/'' @ Name f)
            (rel_path ds @ ''/'' @ Name f) s' acc = (res1, s', out1)"
      by (auto simp: rel_path_simps)
    show ?thesis
    proof (cases "res1 = Some None")
      case False
      with True a b show ?thesis
        by (auto simp: Let_def split: option.splits)
    next
      case ok: True
      with True a b Cons [of out1] show ?thesis
        by (simp add: Let_def)
    qed
  qed
qed

lemma listAllFilesRecursive_same_records:
  assumes ro: "\<forall>s p. snd (ReadDir client s p) = s"
      and ro': "\<forall>s p. snd (ReadDir client' s p) = s"
      and agree: "\<forall>ds. fst (ReadDir client' s' (root' @ rel_path ds))
                        = fst (ReadDir client s (root @ rel_path ds))"
  shows "\<exists>res out.
          listAllFilesRecursive n client (root @ rel_path ds) (rel_path ds) s acc = (res, s, out)
        \<and> listAllFilesRecursive n client' (root' @ rel_path ds) (rel_path ds) s' acc = (res, s', out)"
proof (induction n arbitrary: ds acc)
  case 0
  show ?case by simp
next
  case (Suc n)
  obtain r where rd: "ReadDir client s (root @ rel_path ds) = (r, s)"
    using ro by (metis prod.collapse)
  obtain r' where rd': "ReadDir client' s' (root' @ rel_path ds) = (r', s')"
    using ro' by (metis prod.collapse)
  from agree rd rd' have same: "r' = r"
    by (metis fst_conv)
  show ?case
  proof (cases r)
    case (Inl err)
    with rd rd' same show ?thesis by simp
  next
    case (Inr files)
    from range_files_same_records [of client client' n root s root' s' ds files acc, OF ro ro' Suc]
    show ?thesis
      using rd rd' same Inr by simp
  qed
qed

lemma leaf_entry_Nil:
  "leaf_entry client s d [] f =
     ((case fst (ReadDir client s d) of Inl err \<Rightarrow> False | Inr files \<Rightarrow> f \<in> set files)
      \<and> \<not> IsDir f)"
  by (simp add: leaf_entry_def rel_path_simps)

lemma leaf_entry_Cons:
  "leaf_entry client s d (n # ds) f =
     ((case fst (ReadDir client s d) of
         Inl err \<Rightarrow> False
       | Inr files \<Rightarrow> list_ex (\<lambda>g. IsDir g \<and> Name g = n) files)
      \<and> leaf_entry client s (d @ ''/'' @ n) ds f)"
  by (auto simp: leaf_entry_def rel_path_simps)

lemma range_files_complete:
  assumes ro: "\<forall>s p. snd (ReadDir client s p) = s"
      and rec: "\<And>D P acc s' out.
         listAllFilesRecursive n client D P s acc = (Some None, s', out) \<Longrightarrow>
         s' = s \<and> set acc \<subseteq> set out
         \<and> (\<forall>ds f. leaf_entry client s D ds f \<longrightarrow> newFile (P @ rel_path ds) f \<in> set out)"
  shows "range_files n client D P files s acc = (Some None, s', out) \<Longrightarrow>
         s' = s \<and> set acc \<subseteq> set out
         \<and> (\<forall>f\<in>set files. \<not> IsDir f \<longrightarrow> newFile P f \<in> set out)
         \<and> (\<forall>g\<in>set files. IsDir g \<longrightarrow>
               (\<forall>ds f. leaf_entry client s (D @ ''/'' @ Name g) ds f
                  \<longrightarrow> newFile ((P @ ''/'' @ Name g) @ rel_path ds) f \<in> set out))"
proof (induction files arbitrary: acc)
  case Nil
  then show ?case by simp
next
  case (Cons f fs)
  show ?case
  proof (cases "IsDir f")
    case False
    with Cons.prems
    have "range_files n client D P fs s (acc @ [newFile P f]) = (Some None, s', out)"
      by simp
    from Cons.IH [OF this] False show ?thesis by auto
  next
    case True
    obtain res1 s1 out1 where sub1:
      "listAllFilesRecursive n client (D @ ''/'' @ Name f) (P @ ''/'' @ Name f) s acc
         = (res1, s1, out1)"
      by (metis prod.exhaust)
    with Cons.prems True have ok: "res1 = Some None"
      by (auto simp: Let_def split: option.splits)
    from rec [of "D @ ''/'' @ Name f" "P @ ''/'' @ Name f" acc s1 out1] sub1 ok
    have s1: "s1 = s" and a1: "set acc \<subseteq> set out1"
      and c1: "\<forall>ds g. leaf_entry client s (D @ ''/'' @ Name f) ds g
                \<longrightarrow> newFile ((P @ ''/'' @ Name f) @ rel_path ds) g \<in> set out1"
      by auto
    from Cons.prems True sub1 ok s1
    have "range_files n client D P fs s out1 = (Some None, s', out)"
      by (simp add: Let_def)
    from Cons.IH [OF this] a1 c1 True show ?thesis
      by auto
  qed
qed

lemma listAllFilesRecursive_complete:
  assumes ro: "\<forall>s p. snd (ReadDir client s p) = s"
  shows "listAllFilesRecursive n client D P s acc = (Some None, s', out) \<Longrightarrow>
         s' = s \<and> set acc \<subseteq> set out
         \<and> (\<forall>ds f. leaf_entry client s D ds f \<longrightarrow> newFile (P @ rel_path ds) f \<in> set out)"
proof (induction n arbitrary: D P acc s' out)
  case 0
  then show ?case by simp
next
  case (Suc n)
  obtain r where rd: "ReadDir client s D = (r, s)"
    using ro by (metis prod.collapse)
  show ?case
  proof (cases r)
    case (Inl err)
    with Suc.prems rd show ?thesis by simp
  next
    case (Inr files)
    with Suc.prems rd have run: "range_files n client D P files s acc = (Some None, s', out)"
      by simp
    from range_files_complete [of client n s D P files acc s' out, OF ro Suc.IH run]
    have s': "s' = s" and acc: "set acc \<subseteq> set out"
      and fl: "\<forall>f\<in>set files. \<not> IsDir f \<longrightarrow> newFile P f \<in> set out"
      and dr: "\<forall>g\<in>set files. IsDir g \<longrightarrow>
               (\<forall>ds f. leaf_entry client s (D @ ''/'' @ Name g) ds f
                  \<longrightarrow> newFile ((P @ ''/'' @ Name g) @ rel_path ds) f \<in> set out)"
      by blast+
    have "newFile (P @ rel_path ds) f \<in> set out" if leaf: "leaf_entry client s D ds f" for ds f
    proof (cases ds)
      case Nil
      with leaf rd Inr fl show ?thesis
        by (simp add: leaf_entry_Nil rel_path_simps)
    next
      case (Cons m ms)
      with leaf rd Inr obtain g where "g \<in> set files" "IsDir g" "Name g = m"
        and "leaf_entry client s (D @ ''/'' @ m) ms f"
        by (auto simp: leaf_entry_Cons list_ex_iff)
      with dr Cons show ?thesis
        by (auto simp: rel_path_simps)
    qed
    with s' acc show ?thesis by blast
  qed
qed

text \<open>
  Claim C1, as stated, fails in its last part when the walk starts at the remote's root
  directory. From the root path \<open>/\<close> the code lists \<open>/\<close>, \<open>//root\<close> and \<open>//root/sub\<close> and
  returns the records \<open>/root/f1\<close> and \<open>/root/sub/f2\<close>: the absolute paths of the two
  files, under which the remote gives their contents.
\<close>

theorem ListAllFiles_root_directory_counterexample:
  "ListAllFiles 3 (logged_transport (transport_of canonical_client)) some_credentials
        (fs_tree, []) ''/''
       = (Some ([\<lparr>name = ''/root/f1'', size_ = 1, mode = 420, modTime = 0, isDir = False, Sys_ = 0\<rparr>,
                 \<lparr>name = ''/root/sub/f2'', size_ = 2, mode = 420, modTime = 0, isDir = False,
                    Sys_ = 0\<rparr>],
                None),
          (fs_tree, [(CallReadDir ''/'', None), (CallReadDir ''//root'', None),
                     (CallReadDir ''//root/sub'', None)]))
   \<and> ReadFile (transport_of canonical_client) some_credentials fs_tree ''/root/f1''
       = ((''1'', None), fs_tree)
   \<and> ReadFile (transport_of canonical_client) some_credentials fs_tree ''/root/sub/f2''
       = ((''22'', None), fs_tree)"
proof -
  have r0: "resolve ''/'' = []" and r1: "resolve ''//root'' = ''/root''"
    and r2: "resolve ''//root/sub'' = ''/root/sub''"
    and r3: "resolve ''/root/f1'' = ''/root/f1''" and r4: "resolve ''/root/sub/f2'' = ''/root/sub/f2''"
    by (simp_all add: resolve_def segments_def rel_path_def)
  have l0: "ReadDir canonical_client fs_tree ''/''
      = (Inr [\<lparr>Name = ''root'', Size = 0, Mode = 2147484141, ModTime = 0, IsDir = True, Sys = 0\<rparr>],
         fs_tree)"
    by (simp add: canonical_client_def r0 fs_ReadDir_def fs_tree_def dirname_def basename_def
        info_of_def)
  have l1: "ReadDir canonical_client fs_tree ''//root''
      = (Inr [\<lparr>Name = ''f1'', Size = 1, Mode = 420, ModTime = 0, IsDir = False, Sys = 0\<rparr>,
              \<lparr>Name = ''sub'', Size = 0, Mode = 2147484141, ModTime = 0, IsDir = True, Sys = 0\<rparr>],
         fs_tree)"
    by (simp add: canonical_client_def r1 fs_ReadDir_def fs_tree_def dirname_def basename_def
        info_of_def)
  have l2: "ReadDir canonical_client fs_tree ''//root/sub''
      = (Inr [\<lparr>Name = ''f2'', Size = 2, Mode = 420, ModTime = 0, IsDir = False, Sys = 0\<rparr>],
         fs_tree)"
    by (simp add: canonical_client_def r2 fs_ReadDir_def fs_tree_def dirname_def basename_def
        info_of_def)
  have walk: "ListAllFiles 3 (logged_transport (transport_of canonical_client)) some_credentials
        (fs_tree, []) ''/''
       = (Some ([\<lparr>name = ''/root/f1'', size_ = 1, mode = 420, modTime = 0, isDir = False, Sys_ = 0\<rparr>,
                 \<lparr>name = ''/root/sub/f2'', size_ = 2, mode = 420, modTime = 0, isDir = False,
                    Sys_ = 0\<rparr>],
                None),
          (fs_tree, [(CallReadDir ''/'', None), (CallReadDir ''//root'', None),
                     (CallReadDir ''//root/sub'', None)]))"
    by (simp add: ListAllFiles_def connect_logged_transport connect_transport_of numeral_3_eq_3
        logged_simps l0 l1 l2 newFile_def)
  have f1: "ReadFile (transport_of canonical_client) some_credentials fs_tree ''/root/f1''
       = ((''1'', None), fs_tree)"
    by (simp add: ReadFile_def connect_transport_of canonical_client_def r3 fs_Open_def
        fs_OpenFile_def fs_ReadFrom_def has_flag_simps fs_tree_def)
  have f2: "ReadFile (transport_of canonical_client) some_credentials fs_tree ''/root/sub/f2''
       = ((''22'', None), fs_tree)"
    by (simp add: ReadFile_def connect_transport_of canonical_client_def r4 fs_Open_def
        fs_OpenFile_def fs_ReadFrom_def has_flag_simps fs_tree_def)
  from walk f1 f2 show ?thesis
    by (intro conjI)
qed

text \<open>
  Claim C1, amended. On a remote whose listings change nothing, every record that
  \<open>ListAllFiles\<close> returns describes an entry that is not a directory, listed in a
  directory reached from the root through listed directories; its fields are the
  entry's, and its path is \<open>/\<close> joined with the names on the way from the root to the
  entry. When the walk returns no error, every such entry has its record. The root path
  has no part in the records: a walk from another root path, on another remote, whose
  listings below its root are the same, returns the same result.
\<close>

theorem ListAllFiles_records:
  assumes "connect t c = Inr client"
      and "\<forall>s p. snd (ReadDir client s p) = s"
  shows "(ListAllFiles fuel t c s root = (Some (files, err), s1) \<and> r \<in> set files \<longrightarrow>
            isDir r = False
          \<and> (\<exists>ds f. leaf_entry client s root ds f
                \<and> r = \<lparr>name = rel_path (ds @ [Name f]), size_ = Size f, mode = Mode f,
                       modTime = ModTime f, isDir = False, Sys_ = Sys f\<rparr>))
       \<and> (ListAllFiles fuel t c s root = (Some (files, None), s1)
            \<and> leaf_entry client s root ds' f' \<longrightarrow>
            \<lparr>name = rel_path (ds' @ [Name f']), size_ = Size f', mode = Mode f',
             modTime = ModTime f', isDir = False, Sys_ = Sys f'\<rparr> \<in> set files)
       \<and> (connect t' c' = Inr client' \<and> (\<forall>s p. snd (ReadDir client' s p) = s)
            \<and> (\<forall>ds. fst (ReadDir client' s' (root' @ rel_path ds))
                     = fst (ReadDir client s (root @ rel_path ds)))
          \<longrightarrow> fst (ListAllFiles fuel t' c' s' root') = fst (ListAllFiles fuel t c s root))"
proof (intro conjI impI)
  assume a: "ListAllFiles fuel t c s root = (Some (files, err), s1) \<and> r \<in> set files"
  obtain res0 s0 out0 where run: "listAllFilesRecursive fuel client root [] s [] = (res0, s0, out0)"
    by (metis prod.exhaust)
  from assms(1) a run have "res0 = Some None \<and> files = out0 \<or> files = []"
    by (auto simp: ListAllFiles_def split: option.splits)
  with a have files: "files = out0" by auto
  have "dir_chain client s root []" by simp
  from listAllFilesRecursive_leaves [OF assms(2) this, of root fuel "[]" res0 s0 out0] run
  have "\<forall>r\<in>set out0. listed_leaf client s root r"
    by (simp add: rel_path_simps)
  with a files obtain ds f where leaf: "leaf_entry client s root ds f"
    and r: "r = newFile (rel_path ds) f"
    by (auto simp: listed_leaf_def)
  from leaf have nd: "\<not> IsDir f" by (simp add: leaf_entry_def)
  with r have "r = \<lparr>name = rel_path (ds @ [Name f]), size_ = Size f, mode = Mode f,
                    modTime = ModTime f, isDir = False, Sys_ = Sys f\<rparr>"
    by (simp add: newFile_def rel_path_simps)
  with leaf show "isDir r = False" and "\<exists>ds f. leaf_entry client s root ds f
                \<and> r = \<lparr>name = rel_path (ds @ [Name f]), size_ = Size f, mode = Mode f,
                       modTime = ModTime f, isDir = False, Sys_ = Sys f\<rparr>"
    by auto
next
  assume a: "ListAllFiles fuel t c s root = (Some (files, None), s1)
            \<and> leaf_entry client s root ds' f'"
  obtain res0 s0 out0 where run: "listAllFilesRecursive fuel client root [] s [] = (res0, s0, out0)"
    by (metis prod.exhaust)
  from assms(1) a run have ok: "res0 = Some None" and files: "files = out0"
    by (auto simp: ListAllFiles_def split: option.splits)
  from listAllFilesRecursive_complete [OF assms(2), of fuel root "[]" s "[]" s0 out0] run ok a
  have "newFile (rel_path ds') f' \<in> set out0"
    by simp
  moreover from a have "\<not> IsDir f'" by (simp add: leaf_entry_def)
  ultimately show "\<lparr>name = rel_path (ds' @ [Name f']), size_ = Size f', mode = Mode f',
             modTime = ModTime f', isDir = False, Sys_ = Sys f'\<rparr> \<in> set files"
    using files by (simp add: newFile_def rel_path_simps)
next
  assume b: "connect t' c' = Inr client' \<and> (\<forall>s p. snd (ReadDir client' s p) = s)
            \<and> (\<forall>ds. fst (ReadDir client' s' (root' @ rel_path ds))
                     = fst (ReadDir client s (root @ rel_path ds)))"
  then have ro': "\<forall>s p. snd (ReadDir client' s p) = s"
    and agree: "\<forall>ds. fst (ReadDir client' s' (root' @ rel_path ds))
                     = fst (ReadDir client s (root @ rel_path ds))"
    by blast+
  from listAllFilesRecursive_same_records [OF assms(2) ro' agree, of fuel "[]" "[]"]
  obtain res out where
    "listAllFilesRecursive fuel client root [] s [] = (res, s, out)"
    "listAllFilesRecursive fuel client' root' [] s' [] = (res, s', out)"
    by (auto simp: rel_path_simps)
  with assms(1) b show "fst (ListAllFiles fuel t' c' s' root') = fst (ListAllFiles fuel t c s root)"
    by (auto simp: ListAllFiles_def split: option.splits)
qed

lemma fs_ReadDir_unchanged: "snd (ReadDir fs_client s p) = s"
  by (simp add: fs_client_def fs_ReadDir_def split: option.splits node.splits)

text \<open>
  The files \<open>/root/f1\<close> and \<open>/root/sub/f2\<close>, walked from \<open>/root\<close>, give the paths \<open>/f1\<close> and
  \<open>/sub/f2\<close>; the directory \<open>sub\<close> gives no record, and the entry \<open>f2\<close> below \<open>sub\<close> has
  its record. The same tree served below \<open>/mnt\<close> and walked from \<open>/mnt/root\<close> gives the
  same two records.
\<close>

theorem ListAllFiles_records_witness:
  "connect (transport_of fs_client) some_credentials = Inr fs_client
   \<and> (\<forall>s p. snd (ReadDir fs_client s p) = s)
   \<and> ListAllFiles 2 (transport_of fs_client) some_credentials fs_tree ''/root''
       = (Some ([\<lparr>name = ''/f1'', size_ = 1, mode = 420, modTime = 0, isDir = False, Sys_ = 0\<rparr>,
                 \<lparr>name = ''/sub/f2'', size_ = 2, mode = 420, modTime = 0, isDir = False, Sys_ = 0\<rparr>],
                None), fs_tree)
   \<and> (\<exists>ds f. leaf_entry fs_client fs_tree ''/root'' ds f
         \<and> \<lparr>name = ''/sub/f2'', size_ = 2, mode = 420, modTime = 0, isDir = False, Sys_ = 0\<rparr>
             = \<lparr>name = rel_path (ds @ [Name f]), size_ = Size f, mode = Mode f,
                modTime = ModTime f, isDir = False, Sys_ = Sys f\<rparr>)
   \<and> leaf_entry fs_client fs_tree ''/root'' [''sub'']
         \<lparr>Name = ''f2'', Size = 2, Mode = 420, ModTime = 0, IsDir = False, Sys = 0\<rparr>
   \<and> connect (transport_of mounted_client) some_credentials = Inr mounted_client
   \<and> (\<forall>s p. snd (ReadDir mounted_client s p) = s)
   \<and> (\<forall>ds. fst (ReadDir mounted_client fs_tree (''/mnt/root'' @ rel_path ds))
            = fst (ReadDir fs_client fs_tree (''/root'' @ rel_path ds)))
   \<and> fst (ListAllFiles 2 (transport_of mounted_client) some_credentials fs_tree ''/mnt/root'')
       = Some ([\<lparr>name = ''/f1'', size_ = 1, mode = 420, modTime = 0, isDir = False, Sys_ = 0\<rparr>,
                \<lparr>name = ''/sub/f2'', size_ = 2, mode = 420, modTime = 0, isDir = False, Sys_ = 0\<rparr>],
               None)"
proof -
  have h: "connect (transport_of fs_client) some_credentials = Inr fs_client"
    by (rule connect_transport_of)
  have ro: "\<forall>s p. snd (ReadDir fs_client s p) = s"
    by (simp add: fs_ReadDir_unchanged)
  have l1: "ReadDir fs_client fs_tree ''/root''
      = (Inr [\<lparr>Name = ''f1'', Size = 1, Mode = 420, ModTime = 0, IsDir = False, Sys = 0\<rparr>,
              \<lparr>Name = ''sub'', Size = 0, Mode = 2147484141, ModTime = 0, IsDir = True, Sys = 0\<rparr>],
         fs_tree)"
    by (simp add: fs_client_def fs_ReadDir_def fs_tree_def dirname_def basename_def info_of_def)
  have l2: "ReadDir fs_client fs_tree ''/root/sub''
      = (Inr [\<lparr>Name = ''f2'', Size = 2, Mode = 420, ModTime = 0, IsDir = False, Sys = 0\<rparr>],
         fs_tree)"
    by (simp add: fs_client_def fs_ReadDir_def fs_tree_def dirname_def basename_def info_of_def)
  have run: "ListAllFiles 2 (transport_of fs_client) some_credentials fs_tree ''/root''
       = (Some ([\<lparr>name = ''/f1'', size_ = 1, mode = 420, modTime = 0, isDir = False, Sys_ = 0\<rparr>,
                 \<lparr>name = ''/sub/f2'', size_ = 2, mode = 420, modTime = 0, isDir = False, Sys_ = 0\<rparr>],
                None), fs_tree)"
    by (simp add: ListAllFiles_def h numeral_2_eq_2 l1 l2 newFile_def)
  have h': "connect (transport_of mounted_client) some_credentials = Inr mounted_client"
    by (rule connect_transport_of)
  have ro': "\<forall>s p. snd (ReadDir mounted_client s p) = s"
    by (simp add: mounted_client_def fs_client_def fs_ReadDir_def split: option.splits node.splits)
  have agree: "\<forall>ds. fst (ReadDir mounted_client fs_tree (''/mnt/root'' @ rel_path ds))
            = fst (ReadDir fs_client fs_tree (''/root'' @ rel_path ds))"
    by (simp add: mounted_client_def fs_client_def)
  note th = ListAllFiles_records [OF h ro, where fuel = 2 and s = fs_tree and root = "''/root''"]
  have mem: "\<lparr>name = ''/sub/f2'', size_ = 2, mode = 420, modTime = 0, isDir = False, Sys_ = 0\<rparr>
      \<in> set [\<lparr>name = ''/f1'', size_ = 1, mode = 420, modTime = 0, isDir = False, Sys_ = 0\<rparr>,
              \<lparr>name = ''/sub/f2'', size_ = 2, mode = 420, modTime = 0, isDir = False, Sys_ = 0\<rparr>]"
    by simp
  from conjunct1 [OF th [where r = "\<lparr>name = ''/sub/f2'', size_ = 2, mode = 420, modTime = 0,
        isDir = False, Sys_ = 0\<rparr>"
      and files = "[\<lparr>name = ''/f1'', size_ = 1, mode = 420, modTime = 0, isDir = False, Sys_ = 0\<rparr>,
              \<lparr>name = ''/sub/f2'', size_ = 2, mode = 420, modTime = 0, isDir = False, Sys_ = 0\<rparr>]"
      and err = None and ?s1.0 = fs_tree]]
    run mem
  have leaf: "\<exists>ds f. leaf_entry fs_client fs_tree ''/root'' ds f
         \<and> \<lparr>name = ''/sub/f2'', size_ = 2, mode = 420, modTime = 0, isDir = False, Sys_ = 0\<rparr>
             = \<lparr>name = rel_path (ds @ [Name f]), size_ = Size f, mode = Mode f,
                modTime = ModTime f, isDir = False, Sys_ = Sys f\<rparr>"
    by blast
  from conjunct2 [OF conjunct2 [OF th [where t' = "transport_of mounted_client" and c' = some_credentials
      and client' = mounted_client and s' = fs_tree and root' = "''/mnt/root''"]]] h' ro' agree
  have "fst (ListAllFiles 2 (transport_of mounted_client) some_credentials fs_tree ''/mnt/root'')
      = fst (ListAllFiles 2 (transport_of fs_client) some_credentials fs_tree ''/root'')"
    by blast
  with run have same: "fst (ListAllFiles 2 (transport_of mounted_client) some_credentials fs_tree
        ''/mnt/root'')
       = Some ([\<lparr>name = ''/f1'', size_ = 1, mode = 420, modTime = 0, isDir = False, Sys_ = 0\<rparr>,
                \<lparr>name = ''/sub/f2'', size_ = 2, mode = 420, modTime = 0, isDir = False, Sys_ = 0\<rparr>],
               None)"
    by simp
  have le: "leaf_entry fs_client fs_tree ''/root'' [''sub'']
         \<lparr>Name = ''f2'', Size = 2, Mode = 420, ModTime = 0, IsDir = False, Sys = 0\<rparr>"
    by (simp add: leaf_entry_Cons leaf_entry_Nil l1 l2)
  from conjunct1 [OF conjunct2 [OF th [where files = "[\<lparr>name = ''/f1'', size_ = 1, mode = 420,
        modTime = 0, isDir = False, Sys_ = 0\<rparr>,
      \<lparr>name = ''/sub/f2'', size_ = 2, mode = 420, modTime = 0, isDir = False, Sys_ = 0\<rparr>]"
      and ?s1.0 = fs_tree and ds' = "[''sub'']"
      and f' = "\<lparr>Name = ''f2'', Size = 2, Mode = 420, ModTime = 0, IsDir = False, Sys = 0\<rparr>"]]]
    run le
  have "\<lparr>name = rel_path ([''sub''] @ [''f2'']), size_ = 2, mode = 420, modTime = 0,
          isDir = False, Sys_ = 0\<rparr>
      \<in> set [\<lparr>name = ''/f1'', size_ = 1, mode = 420, modTime = 0, isDir = False, Sys_ = 0\<rparr>,
              \<lparr>name = ''/sub/f2'', size_ = 2, mode = 420, modTime = 0, isDir = False, Sys_ = 0\<rparr>]"
    by simp
  from h ro run leaf le h' ro' agree same show ?thesis
    by (intro conjI)
qed

lemma walk_log_append:
  "list_all (\<lambda>ev. snd ev = None) a \<Longrightarrow> walk_log res b \<Longrightarrow> walk_log res (a @ b)"
  by (auto simp: walk_log_def butlast_append split: option.splits)

lemma walk_log_ok: "walk_log (Some None) l = list_all (\<lambda>ev. snd ev = None) l"
  by (simp add: walk_log_def)

lemma range_files_logged:
  assumes rec: "\<And>dirPath prefix s l acc.
      \<exists>l2. listAllFilesRecursive n (logged client) dirPath prefix (s, l) acc
             = (case listAllFilesRecursive n client dirPath prefix s acc of
                  (res, s', out) \<Rightarrow> (res, (s', l @ l2), out))
           \<and> walk_log (fst (listAllFilesRecursive n client dirPath prefix s acc)) l2"
  shows "\<exists>l2. range_files n (logged client) dirPath prefix files (s, l) acc
             = (case range_files n client dirPath prefix files s acc of
                  (res, s', out) \<Rightarrow> (res, (s', l @ l2), out))
           \<and> walk_log (fst (range_files n client dirPath prefix files s acc)) l2"
proof (induction files arbitrary: s l acc)
  case Nil
  show ?case by (simp add: walk_log_def)
next
  case (Cons f fs)
  show ?case
  proof (cases "IsDir f")
    case False
    with Cons [of s l "acc @ [newFile prefix f]"] show ?thesis by simp
  next
    case True
    let ?d = "dirPath @ ''/'' @ Name f" and ?p = "prefix @ ''/'' @ Name f"
    obtain res1 s1 out1 where sub1:
      "listAllFilesRecursive n client ?d ?p s acc = (res1, s1, out1)"
      by (metis prod.exhaust)
    with rec [of ?d ?p s l acc] obtain l1 where
      lg1: "listAllFilesRecursive n (logged client) ?d ?p (s, l) acc = (res1, (s1, l @ l1), out1)"
      and w1: "walk_log res1 l1"
      by auto
    show ?thesis
    proof (cases "res1 = Some None")
      case False
      with True sub1 lg1 w1 show ?thesis
        by (intro exI [of _ l1]) (auto simp: Let_def split: option.splits)
    next
      case ok: True
      from Cons [of s1 "l @ l1" out1] obtain l2 where
        lg2: "range_files n (logged client) dirPath prefix fs (s1, l @ l1) out1
             = (case range_files n client dirPath prefix fs s1 out1 of
                  (res, s', out) \<Rightarrow> (res, (s', (l @ l1) @ l2), out))"
        and w2: "walk_log (fst (range_files n client dirPath prefix fs s1 out1)) l2"
        by blast
      from w1 ok have "list_all (\<lambda>ev. snd ev = None) l1" by (simp add: walk_log_ok)
      with w2 have "walk_log (fst (range_files n client dirPath prefix fs s1 out1)) (l1 @ l2)"
        by (simp add: walk_log_append)
      with True sub1 lg1 ok lg2 show ?thesis
        by (intro exI [of _ "l1 @ l2"]) (simp add: Let_def split: prod.splits)
    qed
  qed
qed

lemma listAllFilesRecursive_logged:
  "\<exists>l2. listAllFilesRecursive n (logged client) dirPath prefix (s, l) acc
             = (case listAllFilesRecursive n client dirPath prefix s acc of
                  (res, s', out) \<Rightarrow> (res, (s', l @ l2), out))
           \<and> walk_log (fst (listAllFilesRecursive n client dirPath prefix s acc)) l2"
proof (induction n arbitrary: dirPath prefix s l acc)
  case 0
  show ?case by (simp add: walk_log_def)
next
  case (Suc n)
  obtain r s1 where rd: "ReadDir client s dirPath = (r, s1)"
    by (metis prod.exhaust)
  show ?case
  proof (cases r)
    case (Inl err)
    with rd show ?thesis
      by (intro exI [of _ "[(CallReadDir dirPath, Some err)]"])
         (simp add: logged_simps walk_log_def)
  next
    case (Inr files)
    from range_files_logged [of n client dirPath prefix files s1 "l @ [(CallReadDir dirPath, None)]" acc, OF Suc]
    obtain l2 where
      lg: "range_files n (logged client) dirPath prefix files (s1, l @ [(CallReadDir dirPath, None)]) acc
             = (case range_files n client dirPath prefix files s1 acc of
                  (res, s', out) \<Rightarrow> (res, (s', (l @ [(CallReadDir dirPath, None)]) @ l2), out))"
      and w: "walk_log (fst (range_files n client dirPath prefix files s1 acc)) l2"
      by blast
    have "walk_log (fst (range_files n client dirPath prefix files s1 acc))
            ([(CallReadDir dirPath, None)] @ l2)"
      by (rule walk_log_append [OF _ w]) simp
    with rd Inr lg show ?thesis
      by (intro exI [of _ "(CallReadDir dirPath, None) # l2"])
         (simp add: logged_simps split: prod.splits)
  qed
qed

lemma walk_log_failure:
  assumes "walk_log res l" and "(CallReadDir p, Some e) \<in> set l"
  shows "res = Some (Some e) \<and> last l = (CallReadDir p, Some e)"
proof -
  from assms obtain e' where res: "res = Some (Some e')"
    by (cases res; cases "the res") (auto simp: walk_log_def list_all_iff)
  with assms(1) obtain p' where ne: "l \<noteq> []" and la: "last l = (CallReadDir p', Some e')"
    and bl: "list_all (\<lambda>ev. snd ev = None) (butlast l)"
    by (auto simp: walk_log_def)
  from ne have "l = butlast l @ [last l]" by simp
  with assms(2) have "(CallReadDir p, Some e) \<in> set (butlast l) \<or> (CallReadDir p, Some e) = last l"
    by (metis Un_iff insert_iff list.set(2) set_append empty_iff list.set(1))
  with bl have "(CallReadDir p, Some e) = last l"
    by (auto simp: list_all_iff)
  with la res show ?thesis by simp
qed

text \<open>
  Claim C5. When a listing fails during the walk, at whatever depth, \<open>ListAllFiles\<close>
  has returned: its result is the error of that listing and no records, and the failed
  listing is the last call the walk made. This holds for every bound on the depth,
  and the plain run returns the same.
\<close>

theorem ListAllFiles_listing_failure:
  assumes "connect t c = Inr client"
      and "ListAllFiles fuel (logged_transport t) c (s, []) root = (res, (s', l))"
      and "(CallReadDir p, Some e) \<in> set l"
  shows "res = Some ([], Some e)
       \<and> last l = (CallReadDir p, Some e)
       \<and> fst (ListAllFiles fuel t c s root) = Some ([], Some e)"
proof -
  obtain res0 s0 out0 where run: "listAllFilesRecursive fuel client root [] s [] = (res0, s0, out0)"
    by (metis prod.exhaust)
  with listAllFilesRecursive_logged [of fuel client root "[]" s "[]" "[]"] obtain l2 where
    lg: "listAllFilesRecursive fuel (logged client) root [] (s, []) [] = (res0, (s0, l2), out0)"
    and w: "walk_log res0 l2"
    by auto
  from assms(1,2) lg have l: "l = l2"
    by (auto simp: ListAllFiles_def connect_logged_transport split: option.splits)
  with w assms(3) have r0: "res0 = Some (Some e)" and la: "last l = (CallReadDir p, Some e)"
    using walk_log_failure [of res0 l2 p e] by auto
  from assms(1,2) lg r0 have "res = Some ([], Some e)"
    by (simp add: ListAllFiles_def connect_logged_transport)
  moreover from assms(1) run r0 have "fst (ListAllFiles fuel t c s root) = Some ([], Some e)"
    by (simp add: ListAllFiles_def)
  ultimately show ?thesis using la by simp
qed

text \<open>
  The listing of \<open>/root/sub\<close> is refused after the record of \<open>/root/f1\<close> was taken:
  \<open>listAllFilesRecursive\<close> hands back the slice with that record, and \<open>ListAllFiles\<close>
  returns none.
\<close>

theorem ListAllFiles_listing_failure_witness:
  "connect (transport_of unreadable_client) some_credentials = Inr unreadable_client
   \<and> ListAllFiles 2 (logged_transport (transport_of unreadable_client)) some_credentials
        (fs_tree, []) ''/root''
       = (Some ([], Some (Error ''permission denied'')),
          (fs_tree, [(CallReadDir ''/root'', None),
                     (CallReadDir ''/root/sub'', Some (Error ''permission denied''))]))
   \<and> fst (ListAllFiles 2 (transport_of unreadable_client) some_credentials fs_tree ''/root'')
       = Some ([], Some (Error ''permission denied''))
   \<and> listAllFilesRecursive 2 unreadable_client ''/root'' [] fs_tree []
       = (Some (Some (Error ''permission denied'')), fs_tree,
          [\<lparr>name = ''/f1'', size_ = 1, mode = 420, modTime = 0, isDir = False, Sys_ = 0\<rparr>])"
proof -
  have h: "connect (transport_of unreadable_client) some_credentials = Inr unreadable_client"
    by (rule connect_transport_of)
  have l1: "ReadDir unreadable_client fs_tree ''/root''
      = (Inr [\<lparr>Name = ''f1'', Size = 1, Mode = 420, ModTime = 0, IsDir = False, Sys = 0\<rparr>,
              \<lparr>Name = ''sub'', Size = 0, Mode = 2147484141, ModTime = 0, IsDir = True, Sys = 0\<rparr>],
         fs_tree)"
    by (simp add: unreadable_client_def fs_client_def fs_ReadDir_def fs_tree_def dirname_def
        basename_def info_of_def)
  have l2: "ReadDir unreadable_client fs_tree ''/root/sub''
      = (Inl (Error ''permission denied''), fs_tree)"
    by (simp add: unreadable_client_def)
  have rec: "listAllFilesRecursive 2 unreadable_client ''/root'' [] fs_tree []
       = (Some (Some (Error ''permission denied'')), fs_tree,
          [\<lparr>name = ''/f1'', size_ = 1, mode = 420, modTime = 0, isDir = False, Sys_ = 0\<rparr>])"
    by (simp add: numeral_2_eq_2 l1 l2 newFile_def)
  have run: "ListAllFiles 2 (logged_transport (transport_of unreadable_client)) some_credentials
        (fs_tree, []) ''/root''
       = (Some ([], Some (Error ''permission denied'')),
          (fs_tree, [(CallReadDir ''/root'', None),
                     (CallReadDir ''/root/sub'', Some (Error ''permission denied''))]))"
    by (simp add: ListAllFiles_def connect_logged_transport h numeral_2_eq_2 logged_simps l1 l2)
  have ev: "(CallReadDir ''/root/sub'', Some (Error ''permission denied''))
      \<in> set [(CallReadDir ''/root'' :: handle call, None),
              (CallReadDir ''/root/sub'', Some (Error ''permission denied''))]"
    by simp
  from ListAllFiles_listing_failure [OF h run ev]
  have "fst (ListAllFiles 2 (transport_of unreadable_client) some_credentials fs_tree ''/root'')
       = Some ([], Some (Error ''permission denied''))"
    by simp
  with h run rec show ?thesis
    by (intro conjI)
qed

end
